theory Spec2Isabelle
  imports Main "HOL-Library.Word"
begin

unbundle bit_operations_syntax

section \<open>The segregated-free-list allocator of \<^verbatim>\<open>mm.c\<close>\<close>

text \<open>
  A shallow embedding of \<^verbatim>\<open>labs/malloc-lab/seg_free_list_allocator/mm.c\<close>, built
  without \<^verbatim>\<open>__HEAP_CHECK__\<close>, \<^verbatim>\<open>__LOG_TO_STDERR__\<close> and
  \<^verbatim>\<open>__LIFO_ORDERING__\<close> (all three are commented out in the source), for the 32-bit
  target the file header describes (header bits 31..3 hold the size, 28 classes up to
  \<open>2^32 - 1\<close>). Pointers and \<^verbatim>\<open>size_t\<close> values are 32-bit words, so every
  addition and subtraction wraps as the C arithmetic does.

  Memory is a total function from byte addresses to the 32-bit word stored there. The
  allocator only reads and writes whole words, at addresses that differ from the
  word-aligned heap base by multiples of four, so distinct addresses never overlap.
  C has no bounds check: a write outside the region obtained from \<^verbatim>\<open>mem_sbrk\<close>
  is an ordinary memory write, here as there.
\<close>

type_synonym addr = "32 word"
type_synonym size_t = "32 word"

record heap =
  mem :: "addr \<Rightarrow> 32 word"
  mem_brk :: addr
  mem_max_addr :: addr
  heap_listp :: addr
  segregated_free_list :: "addr list"

text \<open>
  \<open>AssertFail\<close>: an \<^verbatim>\<open>assert\<close> whose condition is false (the process aborts).
  \<open>OutOfBounds\<close>: an array indexed outside its 28 entries, which C leaves undefined.
\<close>

datatype fault = AssertFail | OutOfBounds

definition NULL :: addr where
  "NULL = 0"

subsection \<open>The macros of \<^verbatim>\<open>mm_macros.h\<close>\<close>

text \<open>
  \<^verbatim>\<open>mm_macros.h\<close> is included by \<^verbatim>\<open>mm.c\<close> but is not among the source files.
  Each macro below is modelled from the specification (section 3, section 4.2 and the
  configuration constants of section 6) and from the block-layout comment at the head of
  \<^verbatim>\<open>mm.c\<close>. The default chunk size has no value in either, so every function that
  uses \<^verbatim>\<open>CHUNKSIZE\<close> takes it as its first argument \<open>cs\<close>.
\<close>

text \<open>Modelled from the spec: \<^verbatim>\<open>WSIZE\<close>, the machine word size; a minimum block of
  16 bytes is header, two link words and footer, so a word is 4 bytes.\<close>

definition WSIZE :: size_t where
  "WSIZE = 4"

text \<open>Modelled from the spec: \<^verbatim>\<open>CURR_ALLOC\<close>, the allocated flag, bit 0 of a header.\<close>

definition CURR_ALLOC :: "32 word" where
  "CURR_ALLOC = 1"

text \<open>Modelled from the spec: \<^verbatim>\<open>PACK\<close>, a header word from a size and an allocated
  flag.\<close>

definition PACK :: "size_t \<Rightarrow> 32 word \<Rightarrow> 32 word" where
  "PACK sz alloc = sz OR alloc"

text \<open>Modelled from the spec: \<^verbatim>\<open>ALIGN\<close>, rounding up to the block granularity of
  16 bytes (every block size is a multiple of 16).\<close>

definition ALIGN :: "size_t \<Rightarrow> size_t" where
  "ALIGN sz = (sz + 15) AND NOT 15"

text \<open>Modelled from the spec: \<^verbatim>\<open>ALIGN_CHUNKSIZE\<close>, rounding up to the chunk
  granularity \<open>cs\<close> before the region provider is called.\<close>

definition ALIGN_CHUNKSIZE :: "size_t \<Rightarrow> size_t \<Rightarrow> size_t" where
  "ALIGN_CHUNKSIZE cs sz = (sz + (cs - 1)) div cs * cs"

text \<open>Modelled from the spec: \<^verbatim>\<open>IS_ALIGN_WITH_MIN_BK_SIZE\<close>; the comment at its one
  use reads "is multiple of minimum block size".\<close>

definition IS_ALIGN_WITH_MIN_BK_SIZE :: "size_t \<Rightarrow> bool" where
  "IS_ALIGN_WITH_MIN_BK_SIZE sz = (sz AND 15 = 0)"

text \<open>Modelled from the spec: \<^verbatim>\<open>READ_WORD\<close> and \<^verbatim>\<open>WRITE_WORD\<close>, one machine
  word at an address.\<close>

definition READ_WORD :: "heap \<Rightarrow> addr \<Rightarrow> 32 word" where
  "READ_WORD h p = mem h p"

definition WRITE_WORD :: "heap \<Rightarrow> addr \<Rightarrow> 32 word \<Rightarrow> heap" where
  "WRITE_WORD h p v = h\<lparr>mem := (mem h)(p := v)\<rparr>"

text \<open>Modelled from the spec: the header decoders. The size is bits 31..3, bit 1 says
  that the previous block is allocated, bit 0 that this block is.\<close>

definition GET_SIZE :: "heap \<Rightarrow> addr \<Rightarrow> size_t" where
  "GET_SIZE h p = READ_WORD h p AND NOT 7"

definition GET_ALLOC :: "heap \<Rightarrow> addr \<Rightarrow> 32 word" where
  "GET_ALLOC h p = READ_WORD h p AND 1"

definition GET_PREV_ALLOC :: "heap \<Rightarrow> addr \<Rightarrow> 32 word" where
  "GET_PREV_ALLOC h p = READ_WORD h p AND 2"

text \<open>Modelled from the spec: the header encoders; each changes its own field and keeps
  the other bits of the word.\<close>

definition SET_SIZE :: "heap \<Rightarrow> addr \<Rightarrow> size_t \<Rightarrow> heap" where
  "SET_SIZE h p sz = WRITE_WORD h p ((READ_WORD h p AND 7) OR sz)"

definition SET_CURR_ALLOC_BIT :: "heap \<Rightarrow> addr \<Rightarrow> heap" where
  "SET_CURR_ALLOC_BIT h p = WRITE_WORD h p (READ_WORD h p OR 1)"

definition SET_PREV_ALLOC_BIT :: "heap \<Rightarrow> addr \<Rightarrow> heap" where
  "SET_PREV_ALLOC_BIT h p = WRITE_WORD h p (READ_WORD h p OR 2)"

text \<open>Modelled from the spec: \<^verbatim>\<open>HDRP_USE_PLDP\<close>, the header one word below a
  payload.\<close>

definition HDRP_USE_PLDP :: "addr \<Rightarrow> addr" where
  "HDRP_USE_PLDP pldp = pldp - WSIZE"

text \<open>Modelled from the spec: the free-list links of a free block, the previous pointer
  in the word after the header and the next pointer in the word after that.\<close>

definition GET_PREV_PTR :: "heap \<Rightarrow> addr \<Rightarrow> addr" where
  "GET_PREV_PTR h hdrp = READ_WORD h (hdrp + WSIZE)"

definition GET_NEXT_PTR :: "heap \<Rightarrow> addr \<Rightarrow> addr" where
  "GET_NEXT_PTR h hdrp = READ_WORD h (hdrp + 2 * WSIZE)"

definition SET_PREV_PTR :: "heap \<Rightarrow> addr \<Rightarrow> addr \<Rightarrow> heap" where
  "SET_PREV_PTR h hdrp v = WRITE_WORD h (hdrp + WSIZE) v"

definition SET_NEXT_PTR :: "heap \<Rightarrow> addr \<Rightarrow> addr \<Rightarrow> heap" where
  "SET_NEXT_PTR h hdrp v = WRITE_WORD h (hdrp + 2 * WSIZE) v"

subsection \<open>The region provider\<close>

text \<open>Modelled from the spec: \<^verbatim>\<open>mem_sbrk\<close> of \<^verbatim>\<open>memlib.c\<close>, which is not among
  the source files. The region grows only by appending; a request that would pass the
  provider's limit fails with \<^verbatim>\<open>(void * )-1\<close> and changes nothing, any other returns
  the old end of the region.\<close>

definition mem_sbrk :: "heap \<Rightarrow> size_t \<Rightarrow> heap \<times> addr" where
  "mem_sbrk h incr =
     (if unat (mem_max_addr h) < unat (mem_brk h) + unat incr then (h, - 1)
      else (h\<lparr>mem_brk := mem_brk h + incr\<rparr>, mem_brk h))"

subsection \<open>The size classes\<close>

text \<open>\<^verbatim>\<open>index_array\<close>: the 28 class boundaries \<^verbatim>\<open>1 << 4\<close> to \<^verbatim>\<open>1 << 31\<close>, read
  as \<^verbatim>\<open>size_t\<close>.\<close>

definition index_array :: "size_t list" where
  "index_array =
     [2 ^ 4, 2 ^ 5, 2 ^ 6, 2 ^ 7, 2 ^ 8, 2 ^ 9, 2 ^ 10,
      2 ^ 11, 2 ^ 12, 2 ^ 13, 2 ^ 14, 2 ^ 15, 2 ^ 16, 2 ^ 17,
      2 ^ 18, 2 ^ 19, 2 ^ 20, 2 ^ 21, 2 ^ 22, 2 ^ 23, 2 ^ 24,
      2 ^ 25, 2 ^ 26, 2 ^ 27, 2 ^ 28, 2 ^ 29, 2 ^ 30, 2 ^ 31]"

definition index_arr_size :: int where
  "index_arr_size = int (length index_array)"

text \<open>The loop of \<^verbatim>\<open>find_index\<close>, on the C \<^verbatim>\<open>int\<close>s \<open>low\<close> and \<open>high\<close>.\<close>

function find_index_loop :: "size_t \<Rightarrow> int \<Rightarrow> int \<Rightarrow> int" where
  "find_index_loop sz low high =
     (if low < high then
        (let mid = (high + low) div 2 in
         if sz < index_array ! nat mid then find_index_loop sz low mid
         else find_index_loop sz (mid + 1) high)
      else low)"
  by pat_completeness auto
termination
  by (relation "measure (\<lambda>(sz, low, high). nat (high - low))") auto

definition find_index :: "size_t \<Rightarrow> int" where
  "find_index sz = find_index_loop sz 0 index_arr_size - 1"

subsection \<open>Free blocks and their class lists\<close>

definition init_free_block :: "heap \<Rightarrow> addr \<Rightarrow> size_t \<Rightarrow> heap" where
  "init_free_block h hdrp bk_size =
     (let h1 = WRITE_WORD h hdrp (PACK bk_size 0);
          h2 = WRITE_WORD h1 (hdrp + bk_size - WSIZE) (READ_WORD h1 hdrp);
          h3 = SET_PREV_PTR h2 hdrp NULL
      in SET_NEXT_PTR h3 hdrp NULL)"

text \<open>The \<^verbatim>\<open>while\<close> loop of the address-ordered insertion: it follows the next
  pointers while they are non-null and below \<open>hdrp\<close>. On a cyclic list it never
  returns, which is the value \<open>None\<close>.\<close>

partial_function (option) insert_walk :: "heap \<Rightarrow> addr \<Rightarrow> addr \<Rightarrow> addr option" where
  "insert_walk h hdrp head =
     (if GET_NEXT_PTR h head \<noteq> NULL \<and> GET_NEXT_PTR h head < hdrp
      then insert_walk h hdrp (GET_NEXT_PTR h head)
      else Some head)"

text \<open>\<^verbatim>\<open>insert_into_size_class\<close>, the address-ordered branch (the build without
  \<^verbatim>\<open>__LIFO_ORDERING__\<close>). The index is a C \<^verbatim>\<open>int\<close>; outside the 28 entries the
  access is undefined.\<close>

definition insert_into_size_class :: "heap \<Rightarrow> addr \<Rightarrow> int \<Rightarrow> (fault + heap) option" where
  "insert_into_size_class h hdrp index =
     (if index < 0 \<or> index_arr_size \<le> index then Some (Inl OutOfBounds)
      else
        (let i = nat index; head = segregated_free_list h ! i in
         if head = NULL then
           Some (Inr (h\<lparr>segregated_free_list := (segregated_free_list h)[i := hdrp]\<rparr>))
         else if hdrp < head then
           (let h1 = SET_NEXT_PTR h hdrp head;
                h2 = SET_PREV_PTR h1 hdrp NULL;
                h3 = SET_PREV_PTR h2 head hdrp
            in Some (Inr (h3\<lparr>segregated_free_list := (segregated_free_list h3)[i := hdrp]\<rparr>)))
         else
           (case insert_walk h hdrp head of
              None \<Rightarrow> None
            | Some head' \<Rightarrow>
                (let h1 = SET_NEXT_PTR h hdrp (GET_NEXT_PTR h head');
                     h2 = SET_NEXT_PTR h1 head' hdrp;
                     h3 = SET_PREV_PTR h2 hdrp head'
                 in if GET_NEXT_PTR h3 hdrp \<noteq> NULL
                    then Some (Inr (SET_PREV_PTR h3 (GET_NEXT_PTR h3 hdrp) hdrp))
                    else Some (Inr h3)))))"

subsection \<open>Coalescing\<close>

definition coalesce :: "heap \<Rightarrow> addr \<Rightarrow> heap \<times> addr" where
  "coalesce h pldp =
     (let hdrp = HDRP_USE_PLDP pldp;
          sz = GET_SIZE h hdrp;
          prev_alloc = GET_PREV_ALLOC h hdrp;
          next_alloc = GET_ALLOC h (hdrp + sz)
      in
        if prev_alloc \<noteq> 0 \<and> next_alloc \<noteq> 0 then (h, pldp)
        else if prev_alloc = 0 \<and> next_alloc \<noteq> 0 then
          (let prev_hdrp = hdrp - GET_SIZE h (hdrp - WSIZE);
               h1 = WRITE_WORD h prev_hdrp (READ_WORD h prev_hdrp + sz);
               h2 = WRITE_WORD h1 (hdrp + sz - WSIZE) (READ_WORD h1 prev_hdrp)
           in (h2, prev_hdrp + WSIZE))
        else if prev_alloc \<noteq> 0 \<and> next_alloc = 0 then
          (let next_hdrp = hdrp + sz;
               next_size = GET_SIZE h next_hdrp;
               h1 = WRITE_WORD h hdrp (READ_WORD h hdrp + next_size);
               h2 = WRITE_WORD h1 (next_hdrp + next_size - WSIZE) (READ_WORD h1 hdrp)
           in (h2, pldp))
        else
          (let prev_size = GET_SIZE h (hdrp - WSIZE);
               next_hdrp = hdrp + sz;
               prev_hdrp = hdrp - prev_size;
               next_size = GET_SIZE h next_hdrp;
               h1 = WRITE_WORD h prev_hdrp (READ_WORD h prev_hdrp + sz + next_size);
               h2 = WRITE_WORD h1 (next_hdrp + next_size - WSIZE) (READ_WORD h1 prev_hdrp)
           in (h2, prev_hdrp + WSIZE)))"

subsection \<open>Heap extension\<close>

definition extend_heap :: "size_t \<Rightarrow> heap \<Rightarrow> size_t \<Rightarrow> (fault + heap \<times> addr) option" where
  "extend_heap cs h sz =
     (let asize = ALIGN_CHUNKSIZE cs sz;
          (h1, p) = mem_sbrk h asize
      in
        if p = - 1 then Some (Inr (h1, NULL))
        else
          (let hdrp = p - WSIZE;
               h2 = init_free_block h1 hdrp asize
           in case insert_into_size_class h2 hdrp (find_index asize) of
                None \<Rightarrow> None
              | Some (Inl f) \<Rightarrow> Some (Inl f)
              | Some (Inr h3) \<Rightarrow>
                  (let h4 = WRITE_WORD h3 (hdrp + asize) (PACK 0 CURR_ALLOC)
                   in Some (Inr (coalesce h4 (hdrp + WSIZE))))))"

subsection \<open>Fit search and placement\<close>

text \<open>The \<^verbatim>\<open>do ... while (b_size > 0)\<close> loop of \<^verbatim>\<open>find_first_fit\<close>. It walks the
  blocks of the region by their header sizes; where the sizes lead it round in a circle
  it never returns, which is the value \<open>None\<close>.\<close>

partial_function (option) find_first_fit_loop :: "heap \<Rightarrow> size_t \<Rightarrow> addr \<Rightarrow> addr option" where
  "find_first_fit_loop h asize hdrp =
     (let b_size = GET_SIZE h hdrp in
      if asize \<le> b_size \<and> GET_ALLOC h hdrp = 0 then Some (hdrp + WSIZE)
      else if 0 < b_size then find_first_fit_loop h asize (hdrp + b_size)
      else Some NULL)"

definition find_first_fit :: "heap \<Rightarrow> size_t \<Rightarrow> addr option" where
  "find_first_fit h asize = find_first_fit_loop h asize (heap_listp h)"

definition place_and_split :: "heap \<Rightarrow> addr \<Rightarrow> size_t \<Rightarrow> heap" where
  "place_and_split h pldp asize =
     (let hdrp = HDRP_USE_PLDP pldp;
          b_size = GET_SIZE h hdrp;
          left_size = b_size - asize;
          split = (left_size \<noteq> 0 \<and> IS_ALIGN_WITH_MIN_BK_SIZE left_size);
          h1 = (if split then
                  (let new_free_hdrp = hdrp + asize;
                       ha = WRITE_WORD h new_free_hdrp (PACK left_size 0)
                   in WRITE_WORD ha (new_free_hdrp + left_size - WSIZE)
                        (READ_WORD ha new_free_hdrp))
                else h);
          b_size' = (if split then asize else b_size);
          h2 = SET_SIZE h1 hdrp b_size';
          h3 = SET_CURR_ALLOC_BIT h2 hdrp;
          next_hdrp = hdrp + b_size';
          h4 = SET_PREV_ALLOC_BIT h3 next_hdrp
      in if GET_ALLOC h4 next_hdrp = 0
         then SET_PREV_ALLOC_BIT h4 (next_hdrp + GET_SIZE h4 next_hdrp - WSIZE)
         else h4)"

subsection \<open>The collecting helpers\<close>

text \<open>
  \<^verbatim>\<open>forward_collect\<close> and \<^verbatim>\<open>backward_collect\<close> are defined in \<^verbatim>\<open>mm.c\<close> and
  called from nowhere in it. \<^verbatim>\<open>forward_collect\<close> returns a pointer and writes the
  collected size through its second argument: the model takes the value stored there
  before the call and returns heap, pointer and stored value. \<^verbatim>\<open>backward_collect\<close> is
  declared to return a pointer and has no \<^verbatim>\<open>return\<close>: the model returns the heap.
  The parameter \<^verbatim>\<open>target_size\<close> is written \<open>target_sz\<close>. A loop that never ends is
  the value \<open>None\<close>.
\<close>

partial_function (option) forward_collect_loop ::
  "heap \<Rightarrow> addr \<Rightarrow> size_t \<Rightarrow> size_t \<Rightarrow> addr \<Rightarrow> size_t \<Rightarrow> (heap \<times> addr \<times> size_t) option" where
  "forward_collect_loop h ftrp old_size target_sz ret collected_size =
     (if collected_size + old_size < target_sz \<and> GET_PREV_ALLOC h ret = 0 then
        (let next_size = GET_SIZE h (ret - WSIZE);
             ret' = ret - next_size;
             h1 = WRITE_WORD h ret' (READ_WORD h ret' + collected_size);
             collected_size' = GET_SIZE h1 ret';
             h2 = WRITE_WORD h1 ftrp (READ_WORD h1 ret')
         in forward_collect_loop h2 ftrp old_size target_sz ret' collected_size')
      else Some (h, ret, collected_size))"

definition forward_collect ::
  "heap \<Rightarrow> addr \<Rightarrow> size_t \<Rightarrow> size_t \<Rightarrow> (heap \<times> addr \<times> size_t) option" where
  "forward_collect h hdrp collected_size target_sz =
     (if GET_PREV_ALLOC h hdrp \<noteq> 0 then Some (h, hdrp, collected_size)
      else
        (let old_size = GET_SIZE h hdrp;
             collected_size' = GET_SIZE h (hdrp - WSIZE);
             ret = hdrp - collected_size';
             ftrp = hdrp - WSIZE
         in forward_collect_loop h ftrp old_size target_sz ret collected_size'))"

partial_function (option) backward_collect_loop ::
  "heap \<Rightarrow> addr \<Rightarrow> size_t \<Rightarrow> addr \<Rightarrow> heap option" where
  "backward_collect_loop h hdrp target_sz next_hdrp =
     (if GET_SIZE h hdrp < target_sz \<and> GET_ALLOC h next_hdrp = 0 then
        (let next_size = GET_SIZE h next_hdrp;
             h1 = WRITE_WORD h hdrp (READ_WORD h hdrp + next_size);
             next_hdrp' = next_hdrp + next_size;
             h2 = SET_PREV_ALLOC_BIT h1 next_hdrp'
         in backward_collect_loop h2 hdrp target_sz next_hdrp')
      else Some h)"

definition backward_collect :: "heap \<Rightarrow> addr \<Rightarrow> size_t \<Rightarrow> heap option" where
  "backward_collect h hdrp target_sz =
     backward_collect_loop h hdrp target_sz (hdrp + GET_SIZE h hdrp)"

subsection \<open>The entry points\<close>

definition mm_malloc :: "size_t \<Rightarrow> heap \<Rightarrow> size_t \<Rightarrow> (fault + heap \<times> addr) option" where
  "mm_malloc cs h sz =
     (if sz = 0 then Some (Inr (h, NULL))
      else
        (let asize = ALIGN (sz + WSIZE) in
         case find_first_fit h asize of
           None \<Rightarrow> None
         | Some pldp \<Rightarrow>
             if pldp \<noteq> NULL then Some (Inr (place_and_split h pldp asize, pldp))
             else
               (case extend_heap cs h asize of
                  None \<Rightarrow> None
                | Some (Inl f) \<Rightarrow> Some (Inl f)
                | Some (Inr (h1, pldp1)) \<Rightarrow>
                    if pldp1 \<noteq> NULL
                    then Some (Inr (place_and_split h1 pldp1 asize, pldp1))
                    else Some (Inr (h1, NULL)))))"

text \<open>\<^verbatim>\<open>mm_init\<close> returns the C \<^verbatim>\<open>int\<close> 0 or -1 beside the heap it leaves.\<close>

definition mm_init :: "size_t \<Rightarrow> heap \<Rightarrow> (fault + heap \<times> int) option" where
  "mm_init cs h =
     (let (h1, p) = mem_sbrk h (2 * WSIZE);
          h2 = h1\<lparr>heap_listp := p\<rparr>
      in
        if p = - 1 then Some (Inr (h2, - 1))
        else
          (let h3 = WRITE_WORD h2 (heap_listp h2) (PACK 0 CURR_ALLOC);
               h4 = WRITE_WORD h3 (heap_listp h3 + WSIZE) (PACK 0 CURR_ALLOC);
               h5 = h4\<lparr>heap_listp := heap_listp h4 + WSIZE\<rparr>;
               h6 = h5\<lparr>segregated_free_list := replicate (nat index_arr_size) NULL\<rparr>
           in case extend_heap cs h6 cs of
                None \<Rightarrow> None
              | Some (Inl f) \<Rightarrow> Some (Inl f)
              | Some (Inr (h7, r)) \<Rightarrow> Some (Inr (h7, if r = NULL then - 1 else 0))))"

text \<open>\<^verbatim>\<open>mm_free\<close> and \<^verbatim>\<open>mm_realloc\<close> consist of \<^verbatim>\<open>assert(NULL)\<close>, whose
  condition is the constant 0: the assertion fails whatever the arguments are.\<close>

definition mm_free :: "heap \<Rightarrow> addr \<Rightarrow> fault + heap" where
  "mm_free h ptr = (if NULL \<noteq> 0 then Inr h else Inl AssertFail)"

definition mm_realloc :: "heap \<Rightarrow> addr \<Rightarrow> size_t \<Rightarrow> fault + heap \<times> addr" where
  "mm_realloc h ptr sz = (if NULL \<noteq> 0 then Inr (h, NULL) else Inl AssertFail)"

subsection \<open>Concrete heaps\<close>

text \<open>
  The heaps on which the code is run below. \<open>fresh_heap\<close> is the state before
  \<^verbatim>\<open>mm_init\<close>: an empty region at \<^verbatim>\<open>0x10000000\<close> that may grow by 20 MB, zeroed
  memory, and the globals as C initialises them. \<open>heap_after_init\<close> is what
  \<^verbatim>\<open>mm_init\<close> makes of it with a chunk size of 4096, and \<open>heap_after_malloc\<close> what
  \<^verbatim>\<open>mm_malloc(100)\<close> makes of that (lemmas \<open>mm_init_fresh_heap\<close> and
  \<open>mm_malloc_100\<close>). \<open>exhausted_heap\<close> is \<open>heap_after_init\<close> on a provider
  that has nothing left. \<open>three_free_blocks\<close> holds three adjacent free blocks of 32,
  48 and 64 bytes between the two end markers, the state in which \<^verbatim>\<open>coalesce\<close> is
  called on the middle one.
\<close>

definition fresh_heap :: heap where
  "fresh_heap =
     \<lparr>mem = (\<lambda>_. 0), mem_brk = 0x10000000, mem_max_addr = 0x11400000,
      heap_listp = NULL, segregated_free_list = replicate 28 NULL\<rparr>"

definition heap_after_init :: heap where
  "heap_after_init =
     \<lparr>mem = (\<lambda>_. 0)
        (0x10000000 := 1, 0x10000008 := 0, 0x1000000C := 0, 0x10001004 := 1,
         0x10000004 := 8192, 0x10001000 := 8192),
      mem_brk = 0x10001008, mem_max_addr = 0x11400000,
      heap_listp = 0x10000004,
      segregated_free_list = (replicate 28 NULL)[8 := 0x10000004]\<rparr>"

definition heap_after_malloc :: heap where
  "heap_after_malloc =
     \<lparr>mem = (\<lambda>_. 0)
        (0x10000000 := 1, 0x10000008 := 0, 0x1000000C := 0, 0x10001004 := 1,
         0x10001000 := 8192, 0x10000004 := 113, 0x10000074 := 8082,
         0x10002000 := 8082),
      mem_brk = 0x10001008, mem_max_addr = 0x11400000,
      heap_listp = 0x10000004,
      segregated_free_list = (replicate 28 NULL)[8 := 0x10000004]\<rparr>"

definition exhausted_heap :: heap where
  "exhausted_heap = heap_after_init\<lparr>mem_max_addr := 0x10001008\<rparr>"

definition three_free_blocks :: heap where
  "three_free_blocks =
     \<lparr>mem = (\<lambda>_. 0)
        (0x10000000 := 1,
         0x10000004 := 34, 0x10000020 := 34,
         0x10000024 := 48, 0x10000050 := 48,
         0x10000054 := 64, 0x10000090 := 64,
         0x10000094 := 1),
      mem_brk = 0x10000098, mem_max_addr = 0x11400000,
      heap_listp = 0x10000004,
      segregated_free_list = replicate 28 NULL\<rparr>"

text \<open>
  \<open>heap_free_tail\<close> is a well-formed heap whose last block, of 4096 bytes, is free and
  registered in class 8, and \<open>heap_after_extend\<close> is what \<^verbatim>\<open>extend_heap(4096)\<close>
  makes of it (lemma \<open>extend_heap_free_tail\<close>).
\<close>

definition heap_free_tail :: heap where
  "heap_free_tail =
     \<lparr>mem = (\<lambda>_. 0)
        (0x10000000 := 1, 0x10000004 := 4098, 0x10001000 := 4098, 0x10001004 := 1),
      mem_brk = 0x10001008, mem_max_addr = 0x11400000,
      heap_listp = 0x10000004,
      segregated_free_list = (replicate 28 NULL)[8 := 0x10000004]\<rparr>"

definition heap_after_extend :: heap where
  "heap_after_extend =
     \<lparr>mem = (\<lambda>_. 0)
        (0x10000000 := 1, 0x10001000 := 4098, 0x10001004 := 4096,
         0x1000100C := 0, 0x1000000C := 0x10001004, 0x10001008 := 0x10000004,
         0x10002004 := 1, 0x10000004 := 8194, 0x10002000 := 8194),
      mem_brk = 0x10002008, mem_max_addr = 0x11400000,
      heap_listp = 0x10000004,
      segregated_free_list = (replicate 28 NULL)[8 := 0x10000004]\<rparr>"

text \<open>The same heap after \<^verbatim>\<open>extend_heap\<close> for a request of 4112 bytes, which appends
  two chunks: the new block is registered in class 9 and then merged into the block
  before it.\<close>

definition heap_after_growth :: heap where
  "heap_after_growth =
     \<lparr>mem = (\<lambda>_. 0)
        (0x10000000 := 1, 0x10001000 := 4098, 0x10001004 := 8192,
         0x10001008 := 0, 0x1000100C := 0,
         0x10003004 := 1, 0x10000004 := 12290, 0x10003000 := 12290),
      mem_brk = 0x10003008, mem_max_addr = 0x11400000,
      heap_listp = 0x10000004,
      segregated_free_list = (replicate 28 NULL)[8 := 0x10000004, 9 := 0x10001004]\<rparr>"

text \<open>
  The blocks on the class lists, to state what the table holds: \<open>list_blocks n h p\<close>
  follows the next pointers from the head \<open>p\<close> for at most \<open>n\<close> blocks, and
  \<open>listed_blocks n h\<close> does so for the 28 heads in turn.
\<close>

fun list_blocks :: "nat \<Rightarrow> heap \<Rightarrow> addr \<Rightarrow> addr list" where
  "list_blocks 0 h p = []"
| "list_blocks (Suc n) h p =
     (if p = NULL then [] else p # list_blocks n h (GET_NEXT_PTR h p))"

definition listed_blocks :: "nat \<Rightarrow> heap \<Rightarrow> addr list" where
  "listed_blocks n h = concat (map (list_blocks n h) (segregated_free_list h))"

text \<open>The pointer a call returned, when it returned.\<close>

definition returned_ptr :: "(fault + heap \<times> addr) option \<Rightarrow> addr option" where
  "returned_ptr r = (case r of Some (Inr (h, p)) \<Rightarrow> Some p | _ \<Rightarrow> None)"

section \<open>Properties\<close>

declare find_index_loop.simps [simp del]

lemmas macro_defs =
  WSIZE_def CURR_ALLOC_def PACK_def ALIGN_def ALIGN_CHUNKSIZE_def
  IS_ALIGN_WITH_MIN_BK_SIZE_def READ_WORD_def WRITE_WORD_def GET_SIZE_def GET_ALLOC_def
  GET_PREV_ALLOC_def SET_SIZE_def SET_CURR_ALLOC_BIT_def SET_PREV_ALLOC_BIT_def
  HDRP_USE_PLDP_def GET_PREV_PTR_def GET_NEXT_PTR_def SET_PREV_PTR_def SET_NEXT_PTR_def
  NULL_def

subsection \<open>The size-class index\<close>

lemma length_index_array: "length index_array = 28"
  by (simp add: index_array_def)

lemma sorted_index_array: "sorted index_array"
  by (simp add: index_array_def)

lemma index_array_mono:
  "i \<le> j \<Longrightarrow> j < 28 \<Longrightarrow> index_array ! i \<le> index_array ! j"
  using sorted_index_array by (simp add: sorted_nth_mono length_index_array)

lemma index_array_nth: "j < 28 \<Longrightarrow> index_array ! j = 2 ^ (j + 4)"
proof -
  have "\<forall>j < 28. index_array ! j = 2 ^ (j + 4)"
    unfolding index_array_def by (simp add: All_less_Suc numeral_eq_Suc)
  then show "j < 28 \<Longrightarrow> index_array ! j = 2 ^ (j + 4)" by blast
qed

text \<open>The invariant of the binary search: everything below \<open>low\<close> is at most
  \<open>sz\<close>, everything from \<open>high\<close> on is above it.\<close>

lemma find_index_loop_bounds:
  assumes "0 \<le> low" and "low \<le> high" and "high \<le> 28"
    and "\<forall>i. 0 \<le> i \<and> i < low \<longrightarrow> index_array ! nat i \<le> sz"
    and "\<forall>i. high \<le> i \<and> i < 28 \<longrightarrow> sz < index_array ! nat i"
  shows "low \<le> find_index_loop sz low high \<and> find_index_loop sz low high \<le> high
     \<and> (\<forall>i. 0 \<le> i \<and> i < find_index_loop sz low high \<longrightarrow> index_array ! nat i \<le> sz)
     \<and> (\<forall>i. find_index_loop sz low high \<le> i \<and> i < 28 \<longrightarrow> sz < index_array ! nat i)"
  using assms
proof (induction sz low high rule: find_index_loop.induct)
  case (1 sz low high)
  show ?case
  proof (cases "low < high")
    case False
    with "1.prems" have "high = low" by simp
    with False "1.prems" show ?thesis by (simp add: find_index_loop.simps[of sz low low])
  next
    case True
    define mid where "mid = (high + low) div 2"
    have mid: "low \<le> mid" "mid < high" using True by (auto simp: mid_def)
    show ?thesis
    proof (cases "sz < index_array ! nat mid")
      case lt: True
      have hi: "\<forall>i. mid \<le> i \<and> i < 28 \<longrightarrow> sz < index_array ! nat i"
      proof (intro allI impI)
        fix i :: int assume i: "mid \<le> i \<and> i < 28"
        have "index_array ! nat mid \<le> index_array ! nat i"
          using i mid "1.prems"(1) by (intro index_array_mono) auto
        with lt show "sz < index_array ! nat i" by simp
      qed
      have step: "find_index_loop sz low high = find_index_loop sz low mid"
        using True lt by (subst find_index_loop.simps) (simp add: mid_def Let_def)
      have "low \<le> find_index_loop sz low mid \<and> find_index_loop sz low mid \<le> mid
        \<and> (\<forall>i. 0 \<le> i \<and> i < find_index_loop sz low mid \<longrightarrow> index_array ! nat i \<le> sz)
        \<and> (\<forall>i. find_index_loop sz low mid \<le> i \<and> i < 28 \<longrightarrow> sz < index_array ! nat i)"
        using "1.IH"(1)[OF True mid_def lt] "1.prems" mid hi by simp
      with step mid show ?thesis by auto
    next
      case ge: False
      have lo: "\<forall>i. 0 \<le> i \<and> i < mid + 1 \<longrightarrow> index_array ! nat i \<le> sz"
      proof (intro allI impI)
        fix i :: int assume i: "0 \<le> i \<and> i < mid + 1"
        have "index_array ! nat i \<le> index_array ! nat mid"
          using i mid "1.prems"(1,3) by (intro index_array_mono) auto
        with ge show "index_array ! nat i \<le> sz" by simp
      qed
      have step: "find_index_loop sz low high = find_index_loop sz (mid + 1) high"
        using True ge by (subst find_index_loop.simps) (simp add: mid_def Let_def)
      have "mid + 1 \<le> find_index_loop sz (mid + 1) high
        \<and> find_index_loop sz (mid + 1) high \<le> high
        \<and> (\<forall>i. 0 \<le> i \<and> i < find_index_loop sz (mid + 1) high \<longrightarrow> index_array ! nat i \<le> sz)
        \<and> (\<forall>i. find_index_loop sz (mid + 1) high \<le> i \<and> i < 28 \<longrightarrow> sz < index_array ! nat i)"
        using "1.IH"(2)[OF True mid_def ge] "1.prems" mid lo by simp
      with step mid show ?thesis by auto
    qed
  qed
qed

lemma find_index_loop_full:
  "0 \<le> find_index_loop sz 0 28 \<and> find_index_loop sz 0 28 \<le> 28
     \<and> (\<forall>i. 0 \<le> i \<and> i < find_index_loop sz 0 28 \<longrightarrow> index_array ! nat i \<le> sz)
     \<and> (\<forall>i. find_index_loop sz 0 28 \<le> i \<and> i < 28 \<longrightarrow> sz < index_array ! nat i)"
  by (rule find_index_loop_bounds) auto

lemma find_index_eq: "find_index sz = find_index_loop sz 0 28 - 1"
  by (simp add: find_index_def index_arr_size_def length_index_array)

lemma find_index_range: "- 1 \<le> find_index sz \<and> find_index sz \<le> 27"
  using find_index_loop_full[of sz] unfolding find_index_eq by linarith

lemma find_index_below:
  assumes "0 \<le> i" and "i \<le> find_index sz"
  shows "index_array ! nat i \<le> sz"
proof -
  from assms have "0 \<le> i \<and> i < find_index_loop sz 0 28" unfolding find_index_eq by linarith
  with find_index_loop_full[of sz] show ?thesis by blast
qed

lemma find_index_above:
  assumes "find_index sz < i" and "i < 28"
  shows "sz < index_array ! nat i"
proof -
  from assms have "find_index_loop sz 0 28 \<le> i \<and> i < 28" unfolding find_index_eq by linarith
  with find_index_loop_full[of sz] show ?thesis by blast
qed

lemma find_index_nonneg:
  assumes "16 \<le> sz"
  shows "0 \<le> find_index sz"
proof (rule ccontr)
  assume "\<not> 0 \<le> find_index sz"
  then have "find_index sz < 0" by simp
  then have "sz < index_array ! nat 0" by (intro find_index_above) simp_all
  with assms show False by (simp add: index_array_def)
qed

lemma find_index_mono:
  assumes "s1 \<le> s2"
  shows "find_index s1 \<le> find_index s2"
proof (rule ccontr)
  assume "\<not> find_index s1 \<le> find_index s2"
  then have lt: "find_index s2 < find_index s1" by simp
  have "- 1 \<le> find_index s2" "find_index s1 \<le> 27" using find_index_range by blast+
  with lt have "s2 < index_array ! nat (find_index s1)"
    and "index_array ! nat (find_index s1) \<le> s1"
    by (auto intro: find_index_above find_index_below)
  with assms show False by simp
qed

text \<open>
  C7. For every size from 16 up (a \<^verbatim>\<open>size_t\<close> is below \<open>2^32\<close>), \<^verbatim>\<open>find_index\<close>
  returns an index between 0 and 27, the boundary at that index is at most the size, and
  no later boundary is: it is the greatest index whose boundary is at most the size. The
  28 boundaries are the powers of two from \<open>2^4\<close> to \<open>2^31\<close>, and \<^verbatim>\<open>find_index\<close>
  is monotonic.
\<close>

theorem find_index_greatest_boundary:
  assumes "16 \<le> sz"
  shows "0 \<le> find_index sz \<and> find_index sz \<le> 27
    \<and> index_array ! nat (find_index sz) \<le> sz
    \<and> (\<forall>j < 28. index_array ! j \<le> sz \<longrightarrow> int j \<le> find_index sz)
    \<and> (\<forall>j < 28. index_array ! j = 2 ^ (j + 4))
    \<and> (\<forall>s2. sz < s2 \<longrightarrow> find_index sz \<le> find_index s2)"
proof (intro conjI)
  show nonneg: "0 \<le> find_index sz" by (rule find_index_nonneg[OF assms])
  show "find_index sz \<le> 27" using find_index_range by blast
  show "index_array ! nat (find_index sz) \<le> sz"
    using nonneg by (intro find_index_below) simp_all
  show "\<forall>j < 28. index_array ! j \<le> sz \<longrightarrow> int j \<le> find_index sz"
  proof (intro allI impI)
    fix j :: nat assume j: "j < 28" and le: "index_array ! j \<le> sz"
    show "int j \<le> find_index sz"
    proof (rule ccontr)
      assume "\<not> int j \<le> find_index sz"
      then have "find_index sz < int j" by simp
      moreover have "int j < 28" using j by simp
      ultimately have "sz < index_array ! nat (int j)" by (rule find_index_above)
      with le show False by simp
    qed
  qed
  show "\<forall>j < 28. index_array ! j = 2 ^ (j + 4)"
    using index_array_nth by blast
  show "\<forall>s2. sz < s2 \<longrightarrow> find_index sz \<le> find_index s2"
    by (simp add: find_index_mono)
qed

theorem find_index_greatest_boundary_witness:
  "(16::size_t) \<le> 100 \<and> find_index 100 = 2 \<and> index_array ! 2 = 64 \<and> index_array ! 3 = 128
   \<and> find_index 100 \<le> find_index 5000"
proof -
  have h: "(16::size_t) \<le> 100" by simp
  have v: "find_index 100 = 2"
    by (simp add: find_index_eq find_index_loop.simps index_array_def)
  have lt: "(100::size_t) < 5000" by simp
  from find_index_greatest_boundary[OF h] lt have "find_index 100 \<le> find_index 5000" by blast
  with h v show ?thesis by (simp add: index_array_def)
qed

subsection \<open>Header words\<close>

text \<open>Sizes are multiples of eight: adding one to a header word changes the size field
  by that much and leaves the three flag bits alone.\<close>

lemma and_not_plus_and: "(x AND NOT m) + (x AND m) = (x :: 'a::len word)"
proof -
  have "(x AND NOT m) AND (x AND m) = 0"
    by (rule bit_eqI) (auto simp: bit_simps)
  then have "(x AND NOT m) + (x AND m) = (x AND NOT m) OR (x AND m)"
    by (rule disjunctive_add_eq_or)
  also have "\<dots> = x"
    by (rule bit_eqI) (auto simp: bit_simps)
  finally show ?thesis .
qed

lemma low_bits_sum:
  fixes a b :: "32 word"
  assumes "a AND 7 = 0" and "b AND 7 = 0"
  shows "(a + b) AND 7 = 0"
proof -
  have m: "(7 :: 32 word) = mask 3" by (simp add: mask_eq_exp_minus_1)
  have "2 ^ 3 dvd unat a" "2 ^ 3 dvd unat b"
    using assms and_mask_dvd_nat[of 3 a] and_mask_dvd_nat[of 3 b] by (simp_all add: m)
  then have "2 ^ 3 dvd (unat a + unat b) mod 2 ^ 32"
    by (intro dvd_mod) simp_all
  then have "2 ^ 3 dvd unat (a + b)"
    by (simp add: unat_word_ariths)
  then show ?thesis
    using and_mask_dvd_nat[of 3 "a + b"] by (simp add: m)
qed

lemma high_part_absorbs:
  fixes y r :: "32 word"
  assumes "y AND 7 = 0" and "r AND NOT 7 = 0"
  shows "(y + r) AND NOT 7 = y" and "(y + r) AND 7 = r"
proof -
  have yr: "y AND r = 0"
  proof -
    have "y AND r = (y AND NOT 7) AND r"
      using assms(1) and_not_plus_and[of y 7] by simp
    also have "\<dots> = y AND (r AND NOT 7)" by (simp add: ac_simps)
    finally show ?thesis using assms(2) by simp
  qed
  have sum: "y + r = y OR r" using yr by (rule disjunctive_add_eq_or)
  have y7: "y AND NOT 7 = y" using assms(1) and_not_plus_and[of y 7] by simp
  have r7: "r AND 7 = r" using assms(2) and_not_plus_and[of r 7] by simp
  show "(y + r) AND NOT 7 = y"
    unfolding sum using y7 assms(2) by (simp add: bit.conj_disj_distrib2)
  show "(y + r) AND 7 = r"
    unfolding sum using r7 assms(1) by (simp add: bit.conj_disj_distrib2)
qed

lemma size_bits_add:
  fixes x s :: "32 word"
  assumes "s AND 7 = 0"
  shows "(x + s) AND NOT 7 = (x AND NOT 7) + s"
    and "(x + s) AND 7 = x AND 7"
proof -
  have a: "(x AND NOT 7) AND 7 = 0" by (rule bit_eqI) (auto simp: bit_simps)
  have b: "(x AND 7) AND NOT 7 = 0" by (rule bit_eqI) (auto simp: bit_simps)
  have y: "((x AND NOT 7) + s) AND 7 = 0" using a assms by (rule low_bits_sum)
  have "((x AND NOT 7) + s) + (x AND 7) = ((x AND NOT 7) + (x AND 7)) + s"
    by (simp add: algebra_simps)
  then have e: "((x AND NOT 7) + s) + (x AND 7) = x + s"
    by (simp only: and_not_plus_and)
  show "(x + s) AND NOT 7 = (x AND NOT 7) + s"
    using high_part_absorbs(1)[OF y b] by (simp only: e)
  show "(x + s) AND 7 = x AND 7"
    using high_part_absorbs(2)[OF y b] by (simp only: e)
qed

lemma READ_WORD_WRITE_WORD:
  "READ_WORD (WRITE_WORD h p v) q = (if q = p then v else READ_WORD h q)"
  by (simp add: READ_WORD_def WRITE_WORD_def)

lemma GET_SIZE_WRITE_WORD:
  "GET_SIZE (WRITE_WORD h p v) q = (if q = p then v AND NOT 7 else GET_SIZE h q)"
  by (simp add: GET_SIZE_def READ_WORD_WRITE_WORD)

lemma GET_SIZE_low_bits: "GET_SIZE h p AND 7 = 0"
  unfolding GET_SIZE_def by (rule bit_eqI) (auto simp: bit_simps)

lemma header_footer_apart:
  fixes hdrp a b :: "32 word"
  assumes "a AND 7 = 0" and "b AND 7 = 0"
  shows "hdrp - a \<noteq> hdrp + b - 4"
proof
  assume e: "hdrp - a = hdrp + b - 4"
  have "a + b = (hdrp + b - 4) - (hdrp - a) + 4" by simp
  also have "\<dots> = 4" by (simp only: e[symmetric]) simp
  finally have "a + b = 4" .
  moreover have "(a + b) AND 7 = 0" using assms by (rule low_bits_sum)
  ultimately show False by simp
qed

lemma header_footer_apart0:
  fixes hdrp b :: "32 word"
  assumes "b AND 7 = 0"
  shows "hdrp \<noteq> hdrp + b - 4"
  using header_footer_apart[of 0 b hdrp] assms by simp

lemma GET_SIZE_merged:
  assumes "ph \<noteq> f"
  shows "GET_SIZE (WRITE_WORD (WRITE_WORD h ph v) f (READ_WORD (WRITE_WORD h ph v) ph)) ph
    = v AND NOT 7"
  using assms by (simp add: GET_SIZE_WRITE_WORD)

text \<open>The same for multiples of 16, the block granularity, and the fields of a header
  word that the encoders write.\<close>

lemma low4_low3:
  fixes a :: "32 word"
  assumes "a AND 15 = 0"
  shows "a AND 7 = 0"
proof -
  have "a AND 7 = (a AND 15) AND 7" by (simp add: and.assoc)
  then show ?thesis using assms by simp
qed

lemma size_field:
  fixes a w :: "32 word"
  assumes "a AND 7 = 0"
  shows "(w AND 7 OR a) AND NOT 7 = a" and "(w AND 7 OR a OR 1) AND NOT 7 = a"
    and "(a OR 2) AND NOT 7 = a" and "(w AND 7 OR a OR 1) AND 1 = 1"
    and "(a OR 2) AND 1 = 0" and "(a OR 2) AND 2 = 2" and "a OR 0 = a"
proof -
  have a: "a AND NOT 7 = a" using and_not_plus_and[of a 7] assms by simp
  have z: "(w AND 7) AND NOT 7 = 0" by (rule bit_eqI) (auto simp: bit_simps)
  have o: "(1 :: 32 word) AND NOT 7 = 0" "(2 :: 32 word) AND NOT 7 = 0" by simp_all
  show "(w AND 7 OR a) AND NOT 7 = a"
    by (simp only: bit.conj_disj_distrib2 a z) simp
  show "(w AND 7 OR a OR 1) AND NOT 7 = a"
    by (simp only: bit.conj_disj_distrib2 a z o) simp
  show "(a OR 2) AND NOT 7 = a"
    by (simp only: bit.conj_disj_distrib2 a o) simp
  show "(w AND 7 OR a OR 1) AND 1 = 1"
    by (simp add: bit.conj_disj_distrib2)
  have a1: "a AND 1 = 0"
  proof -
    have "a AND 1 = (a AND 7) AND 1" by (simp add: and.assoc)
    then show ?thesis using assms by simp
  qed
  show "(a OR 2) AND 1 = 0"
    by (simp only: bit.conj_disj_distrib2 a1) simp
  show "(a OR 2) AND 2 = 2"
    by (simp add: bit.conj_disj_distrib2)
  show "a OR 0 = a" by simp
qed

lemma low4_diff:
  fixes a b :: "32 word"
  assumes "a AND 15 = 0" and "b AND 15 = 0"
  shows "(b - a) AND 15 = 0"
proof -
  have m: "(15 :: 32 word) = mask 4" by (simp add: mask_eq_exp_minus_1)
  have da: "2 ^ 4 dvd unat a" and db: "2 ^ 4 dvd unat b"
    using assms and_mask_dvd_nat[of 4 a] and_mask_dvd_nat[of 4 b] by (simp_all add: m)
  have "unat (b - a + a) = (unat (b - a) + unat a) mod 2 ^ 32"
    by (simp only: unat_word_ariths) simp
  then have "(unat (b - a) + unat a) mod 2 ^ 32 = unat b" by simp
  with db have "2 ^ 4 dvd (unat (b - a) + unat a) mod 2 ^ 32" by simp
  moreover have "(2::nat) ^ 4 dvd 2 ^ 32" by simp
  ultimately have "2 ^ 4 dvd unat (b - a) + unat a" by (simp only: dvd_mod_iff)
  with da have "2 ^ 4 dvd unat (b - a)" by (simp only: dvd_add_left_iff)
  then show ?thesis using and_mask_dvd_nat[of 4 "b - a"] by (simp add: m)
qed

lemma low4_nonzero_ge:
  fixes x :: "32 word"
  assumes "x AND 15 = 0"
  shows "(x \<noteq> 0) = (16 \<le> x)"
proof -
  have m: "(15 :: 32 word) = mask 4" by (simp add: mask_eq_exp_minus_1)
  have d: "16 dvd unat x" using assms and_mask_dvd_nat[of 4 x] by (simp add: m)
  show ?thesis
  proof
    assume "x \<noteq> 0"
    then have "unat x \<noteq> 0" by (simp add: unat_eq_zero)
    with d have "16 \<le> unat x" by (auto elim!: dvdE)
    then show "16 \<le> x" by (simp add: word_le_nat_alt)
  next
    assume "16 \<le> x"
    then show "x \<noteq> 0" by auto
  qed
qed

subsection \<open>Coalescing conserves the total size\<close>

text \<open>
  C10. \<^verbatim>\<open>coalesce\<close> is called on the payload \<open>pldp\<close> of a block of size \<open>sz\<close>
  whose header is \<open>hdrp\<close>. The predecessor counts as free when the block's
  \<^verbatim>\<open>prev_alloc\<close> bit is clear, the successor when its own allocated bit is. Where
  the predecessor is free, its boundary tags agree (invariant 3): the header that its
  footer leads to records the footer's size. Then, in each of the four cases, the returned
  payload is the payload of the merged block (the predecessor's when it was merged, the
  block's own otherwise), and the size in that block's header is the sum of the sizes of
  the blocks merged: as words, and as numbers whenever the sum is below \<open>2^32\<close>.
\<close>

theorem coalesce_conserves_size:
  assumes run: "coalesce h pldp = (h', ret)"
    and hdrp: "hdrp = HDRP_USE_PLDP pldp"
    and sz: "sz = GET_SIZE h hdrp"
    and prev_size: "prev_size = GET_SIZE h (hdrp - WSIZE)"
    and next_size: "next_size = GET_SIZE h (hdrp + sz)"
    and prev_free: "prev_free = (GET_PREV_ALLOC h hdrp = 0)"
    and next_free: "next_free = (GET_ALLOC h (hdrp + sz) = 0)"
    and tags: "prev_free \<longrightarrow> GET_SIZE h (hdrp - prev_size) = prev_size"
  shows "HDRP_USE_PLDP ret = (if prev_free then hdrp - prev_size else hdrp)
    \<and> GET_SIZE h' (HDRP_USE_PLDP ret)
        = sz + (if prev_free then prev_size else 0) + (if next_free then next_size else 0)
    \<and> (unat sz + (if prev_free then unat prev_size else 0)
          + (if next_free then unat next_size else 0) < 2 ^ 32
        \<longrightarrow> unat (GET_SIZE h' (HDRP_USE_PLDP ret))
          = unat sz + (if prev_free then unat prev_size else 0)
            + (if next_free then unat next_size else 0))"
proof -
  have s7: "sz AND 7 = 0" "prev_size AND 7 = 0" "next_size AND 7 = 0"
    unfolding sz prev_size next_size by (rule GET_SIZE_low_bits)+
  have sn7: "(sz + next_size) AND 7 = 0" using s7(1,3) by (rule low_bits_sum)
  have A: "HDRP_USE_PLDP ret = (if prev_free then hdrp - prev_size else hdrp)
    \<and> GET_SIZE h' (HDRP_USE_PLDP ret)
        = sz + (if prev_free then prev_size else 0) + (if next_free then next_size else 0)"
  proof (cases prev_free)
    case pf: True
    then have pa: "GET_PREV_ALLOC h hdrp = 0" using prev_free by simp
    have tag: "READ_WORD h (hdrp - prev_size) AND NOT 7 = prev_size"
      using tags pf by (simp add: GET_SIZE_def)
    show ?thesis
    proof (cases next_free)
      case nf: True
      then have na: "GET_ALLOC h (hdrp + sz) = 0" using next_free by simp
      have "hdrp - prev_size \<noteq> hdrp + (sz + next_size) - 4"
        using s7(2) sn7 by (rule header_footer_apart)
      then have apart: "hdrp - prev_size \<noteq> hdrp + sz + next_size - WSIZE"
        by (simp add: WSIZE_def add.assoc)
      have grow: "(READ_WORD h (hdrp - prev_size) + sz + next_size) AND NOT 7
          = prev_size + sz + next_size"
        using size_bits_add(1)[OF s7(3), of "READ_WORD h (hdrp - prev_size) + sz"]
          size_bits_add(1)[OF s7(1), of "READ_WORD h (hdrp - prev_size)"] tag by simp
      from run pa na have r: "ret = hdrp - prev_size + WSIZE"
        and h': "h' = WRITE_WORD (WRITE_WORD h (hdrp - prev_size)
              (READ_WORD h (hdrp - prev_size) + sz + next_size))
             (hdrp + sz + next_size - WSIZE)
             (READ_WORD (WRITE_WORD h (hdrp - prev_size)
                (READ_WORD h (hdrp - prev_size) + sz + next_size)) (hdrp - prev_size))"
        by (auto simp: coalesce_def Let_def hdrp[symmetric] sz[symmetric]
            prev_size[symmetric] next_size[symmetric])
      have "HDRP_USE_PLDP ret = hdrp - prev_size" by (simp add: r HDRP_USE_PLDP_def)
      moreover have "GET_SIZE h' (hdrp - prev_size) = prev_size + sz + next_size"
        unfolding h' GET_SIZE_merged[OF apart] by (rule grow)
      ultimately show ?thesis using pf nf by (simp add: add.commute add.left_commute)
    next
      case nf: False
      then have na: "GET_ALLOC h (hdrp + sz) \<noteq> 0" using next_free by simp
      have "hdrp - prev_size \<noteq> hdrp + sz - 4"
        using s7(2,1) by (rule header_footer_apart)
      then have apart: "hdrp - prev_size \<noteq> hdrp + sz - WSIZE"
        by (simp add: WSIZE_def)
      have grow: "(READ_WORD h (hdrp - prev_size) + sz) AND NOT 7 = prev_size + sz"
        using size_bits_add(1)[OF s7(1), of "READ_WORD h (hdrp - prev_size)"] tag by simp
      from run pa na have r: "ret = hdrp - prev_size + WSIZE"
        and h': "h' = WRITE_WORD (WRITE_WORD h (hdrp - prev_size)
              (READ_WORD h (hdrp - prev_size) + sz))
             (hdrp + sz - WSIZE)
             (READ_WORD (WRITE_WORD h (hdrp - prev_size)
                (READ_WORD h (hdrp - prev_size) + sz)) (hdrp - prev_size))"
        by (auto simp: coalesce_def Let_def hdrp[symmetric] sz[symmetric]
            prev_size[symmetric] next_size[symmetric])
      have "HDRP_USE_PLDP ret = hdrp - prev_size" by (simp add: r HDRP_USE_PLDP_def)
      moreover have "GET_SIZE h' (hdrp - prev_size) = prev_size + sz"
        unfolding h' GET_SIZE_merged[OF apart] by (rule grow)
      ultimately show ?thesis using pf nf by (simp add: add.commute)
    qed
  next
    case pf: False
    then have pa: "GET_PREV_ALLOC h hdrp \<noteq> 0" using prev_free by simp
    have pl: "HDRP_USE_PLDP pldp = hdrp" by (simp add: hdrp)
    show ?thesis
    proof (cases next_free)
      case nf: True
      then have na: "GET_ALLOC h (hdrp + sz) = 0" using next_free by simp
      have "hdrp \<noteq> hdrp + (sz + next_size) - 4"
        using sn7 by (rule header_footer_apart0)
      then have apart: "hdrp \<noteq> hdrp + sz + next_size - WSIZE"
        by (simp add: WSIZE_def add.assoc)
      have grow: "(READ_WORD h hdrp + next_size) AND NOT 7 = sz + next_size"
        using size_bits_add(1)[OF s7(3), of "READ_WORD h hdrp"] by (simp add: sz GET_SIZE_def)
      from run pa na have r: "ret = pldp"
        and h': "h' = WRITE_WORD (WRITE_WORD h hdrp (READ_WORD h hdrp + next_size))
             (hdrp + sz + next_size - WSIZE)
             (READ_WORD (WRITE_WORD h hdrp (READ_WORD h hdrp + next_size)) hdrp)"
        by (auto simp: coalesce_def Let_def hdrp[symmetric] sz[symmetric]
            prev_size[symmetric] next_size[symmetric])
      have "HDRP_USE_PLDP ret = hdrp" by (simp add: r pl)
      moreover have "GET_SIZE h' hdrp = sz + next_size"
        unfolding h' GET_SIZE_merged[OF apart] by (rule grow)
      ultimately show ?thesis using pf nf by simp
    next
      case nf: False
      then have na: "GET_ALLOC h (hdrp + sz) \<noteq> 0" using next_free by simp
      from run pa na have "ret = pldp" and "h' = h"
        by (auto simp: coalesce_def Let_def hdrp[symmetric] sz[symmetric])
      with pf nf pl show ?thesis by (simp add: sz)
    qed
  qed
  have B: "unat (sz + (if prev_free then prev_size else 0) + (if next_free then next_size else 0))
      = unat sz + (if prev_free then unat prev_size else 0)
            + (if next_free then unat next_size else 0)"
    if "unat sz + (if prev_free then unat prev_size else 0)
          + (if next_free then unat next_size else 0) < 2 ^ 32"
    using that by (auto simp: unat_word_ariths)
  show ?thesis
  proof (intro conjI impI)
    show "HDRP_USE_PLDP ret = (if prev_free then hdrp - prev_size else hdrp)"
      using A by blast
    show "GET_SIZE h' (HDRP_USE_PLDP ret)
        = sz + (if prev_free then prev_size else 0) + (if next_free then next_size else 0)"
      using A by blast
    assume "unat sz + (if prev_free then unat prev_size else 0)
          + (if next_free then unat next_size else 0) < 2 ^ 32"
    from B[OF this] conjunct2[OF A]
    show "unat (GET_SIZE h' (HDRP_USE_PLDP ret))
          = unat sz + (if prev_free then unat prev_size else 0)
            + (if next_free then unat next_size else 0)"
      by metis
  qed
qed

theorem coalesce_conserves_size_witness:
  "GET_PREV_ALLOC three_free_blocks 0x10000024 = 0
   \<and> GET_ALLOC three_free_blocks 0x10000054 = 0
   \<and> GET_SIZE three_free_blocks 0x10000004 = 32
   \<and> GET_SIZE three_free_blocks 0x10000020 = 32
   \<and> GET_SIZE three_free_blocks 0x10000024 = 48
   \<and> GET_SIZE three_free_blocks 0x10000054 = 64
   \<and> snd (coalesce three_free_blocks 0x10000028) = 0x10000008
   \<and> GET_SIZE (fst (coalesce three_free_blocks 0x10000028)) 0x10000004 = 144
   \<and> unat (GET_SIZE (fst (coalesce three_free_blocks 0x10000028)) 0x10000004) = 32 + 48 + 64"
proof -
  have pa: "GET_PREV_ALLOC three_free_blocks 0x10000024 = 0"
    and na: "GET_ALLOC three_free_blocks 0x10000054 = 0"
    and s1: "GET_SIZE three_free_blocks 0x10000004 = 32"
    and f1: "GET_SIZE three_free_blocks 0x10000020 = 32"
    and s2: "GET_SIZE three_free_blocks 0x10000024 = 48"
    and s3: "GET_SIZE three_free_blocks 0x10000054 = 64"
    by (simp_all add: three_free_blocks_def macro_defs)
  have tags: "True \<longrightarrow> GET_SIZE three_free_blocks (0x10000024 - 32) = 32"
    using s1 by simp
  have "HDRP_USE_PLDP (snd (coalesce three_free_blocks 0x10000028))
      = (if True then 0x10000024 - 32 else 0x10000024)
    \<and> GET_SIZE (fst (coalesce three_free_blocks 0x10000028))
        (HDRP_USE_PLDP (snd (coalesce three_free_blocks 0x10000028)))
      = 48 + (if True then 32 else 0) + (if True then 64 else 0)
    \<and> (unat (48 :: size_t) + (if True then unat (32 :: size_t) else 0)
          + (if True then unat (64 :: size_t) else 0) < 2 ^ 32
        \<longrightarrow> unat (GET_SIZE (fst (coalesce three_free_blocks 0x10000028))
              (HDRP_USE_PLDP (snd (coalesce three_free_blocks 0x10000028))))
          = unat (48 :: size_t) + (if True then unat (32 :: size_t) else 0)
            + (if True then unat (64 :: size_t) else 0))"
    apply (rule coalesce_conserves_size[where hdrp = "0x10000024"])
    apply (rule prod.collapse[symmetric])
    apply (simp add: HDRP_USE_PLDP_def WSIZE_def)
    apply (simp add: s2)
    apply (simp add: WSIZE_def f1)
    apply (simp add: s3)
    apply (simp add: pa)
    apply (simp add: na)
    apply (simp add: s1)
    done
  then have "snd (coalesce three_free_blocks 0x10000028) = 0x10000008
    \<and> GET_SIZE (fst (coalesce three_free_blocks 0x10000028)) 0x10000004 = 144
    \<and> unat (GET_SIZE (fst (coalesce three_free_blocks 0x10000028)) 0x10000004) = 32 + 48 + 64"
    by (auto simp add: HDRP_USE_PLDP_def WSIZE_def)
  with pa na s1 f1 s2 s3 show ?thesis by simp
qed

subsection \<open>Release and reallocation\<close>

text \<open>
  C3. \<^verbatim>\<open>mm_free\<close> and \<^verbatim>\<open>mm_realloc\<close> are \<^verbatim>\<open>assert(NULL)\<close>: on every heap
  and every argument the assertion fails, so neither marks a block free, coalesces,
  reinserts, grows in place or copies.
\<close>

theorem mm_free_and_mm_realloc_abort:
  "mm_free h ptr = Inl AssertFail \<and> mm_realloc h ptr sz = Inl AssertFail"
  by (simp add: mm_free_def mm_realloc_def NULL_def)

subsection \<open>Running the code on the concrete heaps\<close>

lemma find_index_4096: "find_index 4096 = 8"
  by (simp add: find_index_eq find_index_loop.simps index_array_def)

lemma find_index_8192: "find_index 8192 = 9"
  by (simp add: find_index_eq find_index_loop.simps index_array_def)

lemma find_index_8080: "find_index 8080 = 8"
  by (simp add: find_index_eq find_index_loop.simps index_array_def)

lemma find_index_64: "find_index 64 = 2"
  by (simp add: find_index_eq find_index_loop.simps index_array_def)

lemma mm_init_fresh_heap: "mm_init 4096 fresh_heap = Some (Inr (heap_after_init, 0))"
  by (simp add: mm_init_def fresh_heap_def heap_after_init_def mem_sbrk_def macro_defs Let_def
      extend_heap_def init_free_block_def insert_into_size_class_def find_index_4096
      index_arr_size_def index_array_def coalesce_def)

lemma find_first_fit_after_init: "find_first_fit heap_after_init 112 = Some 0x10000008"
  by (simp add: find_first_fit_def find_first_fit_loop.simps heap_after_init_def macro_defs)

lemma place_and_split_after_init:
  "place_and_split heap_after_init 0x10000008 112 = heap_after_malloc"
  by (simp add: place_and_split_def heap_after_init_def heap_after_malloc_def macro_defs Let_def)

lemma mm_malloc_100:
  "mm_malloc 4096 heap_after_init 100 = Some (Inr (heap_after_malloc, 0x10000008))"
  by (simp add: mm_malloc_def find_first_fit_after_init place_and_split_after_init
      ALIGN_def WSIZE_def NULL_def)

lemma find_first_fit_after_malloc: "find_first_fit heap_after_malloc 64 = Some 0x10000078"
  by (simp add: find_first_fit_def find_first_fit_loop.simps heap_after_malloc_def macro_defs)

lemma replicate_28:
  "replicate 28 x = [x, x, x, x, x, x, x, x, x, x, x, x, x, x,
                     x, x, x, x, x, x, x, x, x, x, x, x, x, x]"
  by (simp add: numeral_eq_Suc)

lemma list_blocks_NULL: "list_blocks n h NULL = []"
  by (cases n) simp_all

lemma listed_after_init: "listed_blocks (Suc (Suc n)) heap_after_init = [0x10000004]"
  by (simp add: listed_blocks_def heap_after_init_def replicate_28 list_blocks_NULL
      del: list_blocks.simps)
     (simp add: macro_defs list_blocks_NULL[unfolded NULL_def])

lemma listed_after_malloc: "listed_blocks (Suc (Suc n)) heap_after_malloc = [0x10000004]"
  by (simp add: listed_blocks_def heap_after_malloc_def replicate_28 list_blocks_NULL
      del: list_blocks.simps)
     (simp add: macro_defs list_blocks_NULL[unfolded NULL_def])

lemma extend_heap_free_tail:
  "extend_heap 4096 heap_free_tail 4096 = Some (Inr (heap_after_extend, 0x10000008))"
  by (simp add: heap_free_tail_def heap_after_extend_def mem_sbrk_def macro_defs Let_def
      extend_heap_def init_free_block_def insert_into_size_class_def find_index_4096
      index_arr_size_def index_array_def coalesce_def insert_walk.simps)

lemma listed_free_tail: "listed_blocks (Suc (Suc n)) heap_free_tail = [0x10000004]"
  by (simp add: listed_blocks_def heap_free_tail_def replicate_28 list_blocks_NULL
      del: list_blocks.simps)
     (simp add: macro_defs list_blocks_NULL[unfolded NULL_def])

lemma listed_after_extend:
  "listed_blocks (Suc (Suc (Suc n))) heap_after_extend = [0x10000004, 0x10001004]"
  by (simp add: listed_blocks_def heap_after_extend_def replicate_28 list_blocks_NULL
      del: list_blocks.simps)
     (simp add: macro_defs list_blocks_NULL[unfolded NULL_def])

subsection \<open>What the code never touches\<close>

lemma place_and_split_table:
  "segregated_free_list (place_and_split h pldp asize) = segregated_free_list h"
  by (simp add: place_and_split_def Let_def SET_SIZE_def SET_CURR_ALLOC_BIT_def
      SET_PREV_ALLOC_BIT_def WRITE_WORD_def)

lemma coalesce_table:
  "segregated_free_list (fst (coalesce h pldp)) = segregated_free_list h"
  by (simp add: coalesce_def Let_def WRITE_WORD_def)

lemma find_first_fit_loop_mem:
  assumes "find_first_fit_loop h asize hdrp = Some r" and "mem h' = mem h"
  shows "find_first_fit_loop h' asize hdrp = Some r"
proof -
  have "\<forall>h'. mem h' = mem h \<longrightarrow> find_first_fit_loop h' asize hdrp = Some r"
  proof (rule find_first_fit_loop.raw_induct[where
        P = "\<lambda>h asize hdrp r. \<forall>h'. mem h' = mem h \<longrightarrow> find_first_fit_loop h' asize hdrp = Some r",
        OF _ assms(1)])
    fix loop :: "heap \<Rightarrow> size_t \<Rightarrow> addr \<Rightarrow> addr option" and h asize hdrp r
    assume IH: "\<And>h asize hdrp r. loop h asize hdrp = Some r \<Longrightarrow>
        \<forall>h'. mem h' = mem h \<longrightarrow> find_first_fit_loop h' asize hdrp = Some r"
      and body: "(let b_size = GET_SIZE h hdrp in
          if asize \<le> b_size \<and> GET_ALLOC h hdrp = 0 then Some (hdrp + WSIZE)
          else if 0 < b_size then loop h asize (hdrp + b_size)
          else Some NULL) = Some r"
    show "\<forall>h'. mem h' = mem h \<longrightarrow> find_first_fit_loop h' asize hdrp = Some r"
    proof (intro allI impI)
      fix h' :: heap assume eq: "mem h' = mem h"
      then have g: "GET_SIZE h' hdrp = GET_SIZE h hdrp" "GET_ALLOC h' hdrp = GET_ALLOC h hdrp"
        by (simp_all add: GET_SIZE_def GET_ALLOC_def READ_WORD_def)
      show "find_first_fit_loop h' asize hdrp = Some r"
      proof (cases "asize \<le> GET_SIZE h hdrp \<and> GET_ALLOC h hdrp = 0")
        case True
        with body g show ?thesis
          by (subst find_first_fit_loop.simps) (auto simp add: Let_def split: if_splits)
      next
        case nofit: False
        show ?thesis
        proof (cases "0 < GET_SIZE h hdrp")
          case True
          with nofit body have "loop h asize (hdrp + GET_SIZE h hdrp) = Some r"
            by (auto simp add: Let_def split: if_splits)
          then have "find_first_fit_loop h' asize (hdrp + GET_SIZE h hdrp) = Some r"
            using IH eq by blast
          with nofit True g show ?thesis
            by (subst find_first_fit_loop.simps) (auto simp add: Let_def split: if_splits)
        next
          case False
          with nofit body g show ?thesis
            by (subst find_first_fit_loop.simps) (auto simp add: Let_def split: if_splits)
        qed
      qed
    qed
  qed
  with assms(2) show ?thesis by blast
qed

lemma find_first_fit_ignores_table:
  "find_first_fit (h\<lparr>segregated_free_list := t\<rparr>) asize = find_first_fit h asize"
proof (cases "find_first_fit h asize")
  case (Some r)
  then show ?thesis
    unfolding find_first_fit_def
    using find_first_fit_loop_mem[of h asize "heap_listp h" r "h\<lparr>segregated_free_list := t\<rparr>"]
    by simp
next
  case None
  show ?thesis
  proof (cases "find_first_fit (h\<lparr>segregated_free_list := t\<rparr>) asize")
    case None' : None
    with None show ?thesis by simp
  next
    case (Some r)
    then have "find_first_fit h asize = Some r"
      unfolding find_first_fit_def
      using find_first_fit_loop_mem[of "h\<lparr>segregated_free_list := t\<rparr>" asize "heap_listp h" r h]
      by simp
    with None show ?thesis by simp
  qed
qed

subsection \<open>The fit search and the size-class table\<close>

text \<open>What the fit search does return is a free block that is large enough.\<close>

lemma find_first_fit_loop_sound:
  assumes "find_first_fit_loop h asize hdrp = Some r" and "r \<noteq> NULL"
  shows "GET_ALLOC h (HDRP_USE_PLDP r) = 0 \<and> asize \<le> GET_SIZE h (HDRP_USE_PLDP r)"
proof -
  have "r \<noteq> NULL \<longrightarrow>
      GET_ALLOC h (HDRP_USE_PLDP r) = 0 \<and> asize \<le> GET_SIZE h (HDRP_USE_PLDP r)"
  proof (rule find_first_fit_loop.raw_induct[where
        P = "\<lambda>h asize hdrp r. r \<noteq> NULL \<longrightarrow>
          GET_ALLOC h (HDRP_USE_PLDP r) = 0 \<and> asize \<le> GET_SIZE h (HDRP_USE_PLDP r)",
        OF _ assms(1)])
    fix loop :: "heap \<Rightarrow> size_t \<Rightarrow> addr \<Rightarrow> addr option" and h asize hdrp r
    assume IH: "\<And>h asize hdrp r. loop h asize hdrp = Some r \<Longrightarrow>
        r \<noteq> NULL \<longrightarrow>
          GET_ALLOC h (HDRP_USE_PLDP r) = 0 \<and> asize \<le> GET_SIZE h (HDRP_USE_PLDP r)"
      and body: "(let b_size = GET_SIZE h hdrp in
          if asize \<le> b_size \<and> GET_ALLOC h hdrp = 0 then Some (hdrp + WSIZE)
          else if 0 < b_size then loop h asize (hdrp + b_size)
          else Some NULL) = Some r"
    show "r \<noteq> NULL \<longrightarrow>
        GET_ALLOC h (HDRP_USE_PLDP r) = 0 \<and> asize \<le> GET_SIZE h (HDRP_USE_PLDP r)"
    proof (cases "asize \<le> GET_SIZE h hdrp \<and> GET_ALLOC h hdrp = 0")
      case True
      with body have "r = hdrp + WSIZE" by (simp add: Let_def)
      with True show ?thesis by (simp add: HDRP_USE_PLDP_def)
    next
      case nofit: False
      show ?thesis
      proof (cases "0 < GET_SIZE h hdrp")
        case True
        with nofit body have "loop h asize (hdrp + GET_SIZE h hdrp) = Some r"
          by (auto simp add: Let_def split: if_splits)
        then show ?thesis by (rule IH)
      next
        case False
        with nofit body have "r = NULL" by (auto simp add: Let_def split: if_splits)
        then show ?thesis by simp
      qed
    qed
  qed
  with assms(2) show ?thesis by blast
qed

lemma find_first_fit_sound:
  assumes "find_first_fit h asize = Some pldp" and "pldp \<noteq> NULL"
  shows "GET_ALLOC h (HDRP_USE_PLDP pldp) = 0 \<and> asize \<le> GET_SIZE h (HDRP_USE_PLDP pldp)"
  using assms unfolding find_first_fit_def by (rule find_first_fit_loop_sound)

text \<open>
  C1. \<^verbatim>\<open>find_first_fit\<close> does not search through the size-class table. Its
  result is the same whatever the table holds: it walks the blocks of the region from
  \<^verbatim>\<open>heap_listp\<close> by their header sizes. After \<^verbatim>\<open>mm_init\<close> and
  \<^verbatim>\<open>mm_malloc(100)\<close> the fit search for 64 bytes (class 2) returns the payload
  \<^verbatim>\<open>0x10000078\<close> of the block at \<^verbatim>\<open>0x10000074\<close>, which is on no class list: the
  only listed block, in class 8, is the one at \<^verbatim>\<open>0x10000004\<close>, 112 bytes and
  allocated.
\<close>

theorem find_first_fit_bypasses_size_classes:
  "find_first_fit (h\<lparr>segregated_free_list := t\<rparr>) asize = find_first_fit h asize
   \<and> mm_init 4096 fresh_heap = Some (Inr (heap_after_init, 0))
   \<and> mm_malloc 4096 heap_after_init 100 = Some (Inr (heap_after_malloc, 0x10000008))
   \<and> find_first_fit heap_after_malloc 64 = Some 0x10000078
   \<and> HDRP_USE_PLDP 0x10000078 = 0x10000074
   \<and> listed_blocks (Suc (Suc n)) heap_after_malloc = [0x10000004]
   \<and> segregated_free_list heap_after_malloc ! 8 = 0x10000004
   \<and> GET_SIZE heap_after_malloc 0x10000004 = 112
   \<and> GET_ALLOC heap_after_malloc 0x10000004 = 1
   \<and> find_index 64 = 2"
  by (simp add: find_first_fit_ignores_table mm_init_fresh_heap mm_malloc_100
      find_first_fit_after_malloc listed_after_malloc find_index_64)
     (simp add: heap_after_malloc_def macro_defs)

subsection \<open>Blocks that stop being free\<close>

text \<open>
  C2. No block is ever unlinked from its class list: neither \<^verbatim>\<open>place_and_split\<close>
  nor \<^verbatim>\<open>coalesce\<close> changes the table. After \<^verbatim>\<open>mm_init\<close> the block at
  \<^verbatim>\<open>0x10000004\<close> is free and listed; \<^verbatim>\<open>mm_malloc(100)\<close> places the request
  in it, and it is allocated and still listed, while the free remainder at
  \<^verbatim>\<open>0x10000074\<close> is on no list. On \<open>heap_free_tail\<close>, \<^verbatim>\<open>extend_heap\<close> lists
  the appended block at \<^verbatim>\<open>0x10001004\<close> and \<^verbatim>\<open>coalesce\<close> then merges it into its
  predecessor: it is no block any more and still listed.
\<close>

theorem placed_block_stays_listed:
  "segregated_free_list (place_and_split h pldp asize) = segregated_free_list h
   \<and> segregated_free_list (fst (coalesce h pldp)) = segregated_free_list h
   \<and> mm_init 4096 fresh_heap = Some (Inr (heap_after_init, 0))
   \<and> listed_blocks (Suc (Suc n)) heap_after_init = [0x10000004]
   \<and> GET_ALLOC heap_after_init 0x10000004 = 0
   \<and> mm_malloc 4096 heap_after_init 100 = Some (Inr (heap_after_malloc, 0x10000008))
   \<and> HDRP_USE_PLDP 0x10000008 = 0x10000004
   \<and> GET_ALLOC heap_after_malloc 0x10000004 = 1
   \<and> GET_ALLOC heap_after_malloc 0x10000074 = 0
   \<and> listed_blocks (Suc (Suc n)) heap_after_malloc = [0x10000004]
   \<and> extend_heap 4096 heap_free_tail 4096 = Some (Inr (heap_after_extend, 0x10000008))
   \<and> GET_SIZE heap_after_extend 0x10000004 = 8192
   \<and> listed_blocks (Suc (Suc (Suc n))) heap_after_extend = [0x10000004, 0x10001004]"
  by (simp add: place_and_split_table coalesce_table mm_init_fresh_heap mm_malloc_100
      listed_after_init listed_after_malloc extend_heap_free_tail listed_after_extend)
     (simp add: heap_after_init_def heap_after_malloc_def heap_after_extend_def macro_defs)

subsection \<open>The class of a merged block\<close>

text \<open>
  C4. \<^verbatim>\<open>extend_heap\<close> registers the appended block under the class of its own size
  before it calls \<^verbatim>\<open>coalesce\<close>, and registers nothing after the merge. On
  \<open>heap_free_tail\<close> the appended 4096 bytes go to class 8 and are then merged into
  the free block before them: the merged block at \<^verbatim>\<open>0x10000004\<close> has 8192 bytes,
  whose class is 9, and is listed in class 8, beside the block it absorbed; class 9 is
  empty. \<^verbatim>\<open>mm_init\<close> itself ends the same way: \<^verbatim>\<open>init_free_block\<close> clears the
  \<^verbatim>\<open>prev_alloc\<close> bit, so \<^verbatim>\<open>coalesce\<close> takes the branch for a free predecessor and
  adds the block's size to its header once more.
\<close>

theorem extend_heap_registers_before_merge:
  "extend_heap 4096 heap_free_tail 4096 = Some (Inr (heap_after_extend, 0x10000008))
   \<and> listed_blocks (Suc (Suc n)) heap_free_tail = [0x10000004]
   \<and> GET_SIZE heap_free_tail 0x10000004 = 4096
   \<and> GET_ALLOC heap_free_tail 0x10000004 = 0
   \<and> find_index 4096 = 8
   \<and> HDRP_USE_PLDP 0x10000008 = 0x10000004
   \<and> GET_SIZE heap_after_extend 0x10000004 = 8192
   \<and> GET_ALLOC heap_after_extend 0x10000004 = 0
   \<and> find_index 8192 = 9
   \<and> segregated_free_list heap_after_extend ! 9 = NULL
   \<and> segregated_free_list heap_after_extend ! 8 = 0x10000004
   \<and> listed_blocks (Suc (Suc (Suc n))) heap_after_extend = [0x10000004, 0x10001004]
   \<and> mm_init 4096 fresh_heap = Some (Inr (heap_after_init, 0))
   \<and> GET_SIZE heap_after_init 0x10000004 = 8192
   \<and> GET_ALLOC heap_after_init 0x10000004 = 0
   \<and> segregated_free_list heap_after_init ! 9 = NULL
   \<and> listed_blocks (Suc (Suc n)) heap_after_init = [0x10000004]"
  by (simp add: extend_heap_free_tail listed_free_tail listed_after_extend mm_init_fresh_heap
      listed_after_init find_index_8192 find_index_4096)
     (simp add: heap_free_tail_def heap_after_extend_def heap_after_init_def macro_defs)

subsection \<open>The remainder of a split\<close>

text \<open>
  On block sizes that are multiples of 16 the test of \<^verbatim>\<open>place_and_split\<close>, a
  remainder that is not zero and a multiple of 16, is the test for a remainder of at least
  16 bytes. When it splits, the low \<open>asize\<close> bytes are the allocated block and the rest
  is a free block whose footer equals its header; when the remainder is zero the whole
  block is allocated. In both cases the table stays as it was.
\<close>

lemma split_test_on_aligned_sizes:
  assumes "b_size AND 15 = 0" and "asize AND 15 = 0"
  shows "(b_size - asize \<noteq> 0 \<and> IS_ALIGN_WITH_MIN_BK_SIZE (b_size - asize))
     = (16 \<le> b_size - asize)"
  using low4_diff[OF assms(2,1)] low4_nonzero_ge[of "b_size - asize"]
  by (simp add: IS_ALIGN_WITH_MIN_BK_SIZE_def)

lemma place_and_split_split:
  assumes hdrp: "hdrp = HDRP_USE_PLDP pldp"
    and b: "b_size = GET_SIZE h hdrp"
    and l: "left_size = b_size - asize"
    and a16: "asize AND 15 = 0" and b16: "b_size AND 15 = 0"
    and a0: "asize \<noteq> 0" and l0: "left_size \<noteq> 0"
    and run: "h' = place_and_split h pldp asize"
  shows "GET_SIZE h' hdrp = asize \<and> GET_ALLOC h' hdrp = 1
    \<and> GET_SIZE h' (hdrp + asize) = left_size \<and> GET_ALLOC h' (hdrp + asize) = 0
    \<and> READ_WORD h' (hdrp + asize + left_size - WSIZE) = READ_WORD h' (hdrp + asize)
    \<and> segregated_free_list h' = segregated_free_list h"
proof -
  have l16: "left_size AND 15 = 0" unfolding l using a16 b16 by (rule low4_diff)
  have a7: "asize AND 7 = 0" using a16 by (rule low4_low3)
  have l7: "left_size AND 7 = 0" using l16 by (rule low4_low3)
  have al7: "(asize + left_size) AND 7 = 0" using a7 l7 by (rule low_bits_sum)
  define nxt where "nxt = hdrp + asize"
  define ftr where "ftr = nxt + left_size - WSIZE"
  have d1: "nxt \<noteq> hdrp" "hdrp \<noteq> nxt" using a0 by (simp_all add: nxt_def)
  have "hdrp \<noteq> hdrp + (asize + left_size) - 4" using al7 by (rule header_footer_apart0)
  then have d2: "ftr \<noteq> hdrp" "hdrp \<noteq> ftr"
    by (auto simp add: ftr_def nxt_def WSIZE_def add.assoc)
  have "nxt \<noteq> nxt + left_size - 4" using l7 by (rule header_footer_apart0)
  then have d3: "ftr \<noteq> nxt" "nxt \<noteq> ftr"
    by (auto simp add: ftr_def WSIZE_def)
  have split: "(left_size \<noteq> 0 \<and> IS_ALIGN_WITH_MIN_BK_SIZE left_size) = True"
    using l0 l16 by (simp add: IS_ALIGN_WITH_MIN_BK_SIZE_def)
  define ha where "ha = WRITE_WORD h nxt (PACK left_size 0)"
  define h1 where "h1 = WRITE_WORD ha ftr (READ_WORD ha nxt)"
  define h2 where "h2 = SET_SIZE h1 hdrp asize"
  define h3 where "h3 = SET_CURR_ALLOC_BIT h2 hdrp"
  define h4 where "h4 = SET_PREV_ALLOC_BIT h3 nxt"
  have e: "h' = (if GET_ALLOC h4 nxt = 0
      then SET_PREV_ALLOC_BIT h4 (nxt + GET_SIZE h4 nxt - WSIZE) else h4)"
    unfolding run place_and_split_def Let_def hdrp[symmetric] b[symmetric] l[symmetric]
      split if_True nxt_def[symmetric] ftr_def[symmetric]
      ha_def[symmetric] h1_def[symmetric] h2_def[symmetric] h3_def[symmetric] h4_def[symmetric]
    by (rule refl)
  have r1: "READ_WORD h1 hdrp = READ_WORD h hdrp" "READ_WORD h1 nxt = left_size"
    "READ_WORD h1 ftr = left_size"
    using d1 d2 d3 by (simp_all add: h1_def ha_def READ_WORD_WRITE_WORD PACK_def)
  have r3: "READ_WORD h3 hdrp = READ_WORD h hdrp AND 7 OR asize OR 1"
    "READ_WORD h3 nxt = left_size" "READ_WORD h3 ftr = left_size"
    using d1 d2 d3 r1
    by (simp_all add: h3_def h2_def SET_SIZE_def SET_CURR_ALLOC_BIT_def READ_WORD_WRITE_WORD
        or.assoc)
  have r4: "READ_WORD h4 hdrp = READ_WORD h hdrp AND 7 OR asize OR 1"
    "READ_WORD h4 nxt = left_size OR 2" "READ_WORD h4 ftr = left_size"
    using d1 d2 d3 r3
    by (simp_all add: h4_def SET_PREV_ALLOC_BIT_def READ_WORD_WRITE_WORD)
  have g4: "GET_ALLOC h4 nxt = 0" "GET_SIZE h4 nxt = left_size"
    unfolding GET_ALLOC_def GET_SIZE_def r4 using size_field[OF l7] by simp_all
  have e': "h' = SET_PREV_ALLOC_BIT h4 ftr"
    unfolding e g4 ftr_def by simp
  have r5: "READ_WORD h' hdrp = READ_WORD h hdrp AND 7 OR asize OR 1"
    "READ_WORD h' nxt = left_size OR 2" "READ_WORD h' ftr = left_size OR 2"
    using d1 d2 d3 r4
    by (simp_all add: e' SET_PREV_ALLOC_BIT_def READ_WORD_WRITE_WORD)
  have tbl: "segregated_free_list h' = segregated_free_list h"
    by (simp add: e' h4_def h3_def h2_def h1_def ha_def SET_PREV_ALLOC_BIT_def
        SET_CURR_ALLOC_BIT_def SET_SIZE_def WRITE_WORD_def)
  have "GET_SIZE h' hdrp = asize" "GET_ALLOC h' hdrp = 1"
    "GET_SIZE h' nxt = left_size" "GET_ALLOC h' nxt = 0"
    unfolding GET_ALLOC_def GET_SIZE_def r5
    using size_field[OF a7] size_field[OF l7] by simp_all
  with r5 tbl show ?thesis
    unfolding nxt_def[symmetric] ftr_def[symmetric] by simp
qed

lemma place_and_split_whole:
  assumes hdrp: "hdrp = HDRP_USE_PLDP pldp"
    and b: "b_size = GET_SIZE h hdrp"
    and l: "b_size - asize = 0"
    and a0: "asize \<noteq> 0"
    and run: "h' = place_and_split h pldp asize"
  shows "GET_SIZE h' hdrp = b_size \<and> GET_ALLOC h' hdrp = 1
    \<and> GET_PREV_ALLOC h' (hdrp + b_size) = 2
    \<and> segregated_free_list h' = segregated_free_list h"
proof -
  have b7: "b_size AND 7 = 0" unfolding b by (rule GET_SIZE_low_bits)
  have b0: "b_size \<noteq> 0" using l a0 by simp
  define nxt where "nxt = hdrp + b_size"
  have d1: "nxt \<noteq> hdrp" "hdrp \<noteq> nxt" using b0 by (simp_all add: nxt_def)
  have nosplit: "(b_size - asize \<noteq> 0 \<and> IS_ALIGN_WITH_MIN_BK_SIZE (b_size - asize)) = False"
    using l by simp
  define h2 where "h2 = SET_SIZE h hdrp b_size"
  define h3 where "h3 = SET_CURR_ALLOC_BIT h2 hdrp"
  define h4 where "h4 = SET_PREV_ALLOC_BIT h3 nxt"
  define ftr where "ftr = nxt + GET_SIZE h4 nxt - WSIZE"
  have e: "h' = (if GET_ALLOC h4 nxt = 0 then SET_PREV_ALLOC_BIT h4 ftr else h4)"
    unfolding run place_and_split_def Let_def hdrp[symmetric] b[symmetric]
      nosplit if_False nxt_def[symmetric]
      h2_def[symmetric] h3_def[symmetric] h4_def[symmetric] ftr_def[symmetric]
    by (rule refl)
  have s7: "GET_SIZE h4 nxt AND 7 = 0" by (rule GET_SIZE_low_bits)
  have bs7: "(b_size + GET_SIZE h4 nxt) AND 7 = 0" using b7 s7 by (rule low_bits_sum)
  have "hdrp \<noteq> hdrp + (b_size + GET_SIZE h4 nxt) - 4" using bs7 by (rule header_footer_apart0)
  then have d2: "ftr \<noteq> hdrp" "hdrp \<noteq> ftr"
    by (auto simp add: ftr_def nxt_def WSIZE_def add.assoc)
  have "nxt \<noteq> nxt + GET_SIZE h4 nxt - 4" using s7 by (rule header_footer_apart0)
  then have d3: "ftr \<noteq> nxt" "nxt \<noteq> ftr"
    by (auto simp add: ftr_def WSIZE_def)
  have r4: "READ_WORD h4 hdrp = (READ_WORD h hdrp AND 7 OR b_size) OR 1"
    "READ_WORD h4 nxt = READ_WORD h nxt OR 2"
    using d1
    by (simp_all add: h4_def h3_def h2_def SET_SIZE_def SET_CURR_ALLOC_BIT_def
        SET_PREV_ALLOC_BIT_def READ_WORD_WRITE_WORD)
  have r5: "READ_WORD h' hdrp = (READ_WORD h hdrp AND 7 OR b_size) OR 1"
    "READ_WORD h' nxt = READ_WORD h nxt OR 2"
    using d1 d2 d3 r4
    by (simp_all add: e SET_PREV_ALLOC_BIT_def READ_WORD_WRITE_WORD)
  have tbl: "segregated_free_list h' = segregated_free_list h"
    by (simp add: e h4_def h3_def h2_def SET_PREV_ALLOC_BIT_def
        SET_CURR_ALLOC_BIT_def SET_SIZE_def WRITE_WORD_def)
  have "GET_SIZE h' hdrp = b_size" "GET_ALLOC h' hdrp = 1"
    unfolding GET_ALLOC_def GET_SIZE_def r5
    using size_field[OF b7] by (simp_all add: or.assoc)
  moreover have "GET_PREV_ALLOC h' nxt = 2"
    unfolding GET_PREV_ALLOC_def r5 by (simp add: bit.conj_disj_distrib2)
  ultimately show ?thesis using tbl unfolding nxt_def by simp
qed

text \<open>
  C5. \<^verbatim>\<open>place_and_split\<close> never inserts the remainder of a split into a size class:
  it leaves the table as it was. Placing 112 bytes in the free block of 8192 at
  \<^verbatim>\<open>0x10000004\<close> splits it: the low 112 bytes are the allocated block, the remaining
  8080 bytes at \<^verbatim>\<open>0x10000074\<close> are a free block with matching header and footer,
  whose class is 8; class 8 still holds the placed block alone.
\<close>

theorem split_remainder_not_listed:
  "segregated_free_list (place_and_split h pldp asize) = segregated_free_list h
   \<and> GET_SIZE heap_after_init 0x10000004 = 8192
   \<and> GET_ALLOC heap_after_init 0x10000004 = 0
   \<and> place_and_split heap_after_init 0x10000008 112 = heap_after_malloc
   \<and> GET_SIZE heap_after_malloc 0x10000004 = 112
   \<and> GET_ALLOC heap_after_malloc 0x10000004 = 1
   \<and> GET_SIZE heap_after_malloc 0x10000074 = 8080
   \<and> GET_ALLOC heap_after_malloc 0x10000074 = 0
   \<and> READ_WORD heap_after_malloc (0x10000074 + 8080 - WSIZE) = READ_WORD heap_after_malloc 0x10000074
   \<and> find_index 8080 = 8
   \<and> segregated_free_list heap_after_malloc ! 8 = 0x10000004
   \<and> listed_blocks (Suc (Suc n)) heap_after_malloc = [0x10000004]"
  by (simp add: place_and_split_table place_and_split_after_init listed_after_malloc find_index_8080)
     (simp add: heap_after_init_def heap_after_malloc_def macro_defs)

subsection \<open>When allocation returns no block\<close>

lemma extend_heap_provider_fails:
  assumes "snd (mem_sbrk h (ALIGN_CHUNKSIZE cs sz)) = - 1"
  shows "extend_heap cs h sz = Some (Inr (fst (mem_sbrk h (ALIGN_CHUNKSIZE cs sz)), NULL))"
  using assms by (cases "mem_sbrk h (ALIGN_CHUNKSIZE cs sz)") (simp add: extend_heap_def Let_def)

lemma find_first_fit_exhausted: "find_first_fit exhausted_heap 10016 = Some NULL"
  by (simp add: find_first_fit_def find_first_fit_loop.simps exhausted_heap_def
      heap_after_init_def macro_defs)

lemma mem_sbrk_exhausted:
  "mem_sbrk exhausted_heap (ALIGN_CHUNKSIZE 4096 10016) = (exhausted_heap, - 1)"
  by (simp add: mem_sbrk_def exhausted_heap_def heap_after_init_def ALIGN_CHUNKSIZE_def)

lemma find_first_fit_free_tail_4112: "find_first_fit heap_free_tail 4112 = Some NULL"
  by (simp add: find_first_fit_def find_first_fit_loop.simps heap_free_tail_def macro_defs)

lemma extend_heap_free_tail_4112:
  "extend_heap 4096 heap_free_tail 4112 = Some (Inr (heap_after_growth, 0x10000008))"
  by (simp add: heap_free_tail_def heap_after_growth_def mem_sbrk_def macro_defs Let_def
      extend_heap_def init_free_block_def insert_into_size_class_def find_index_8192
      index_arr_size_def index_array_def coalesce_def insert_walk.simps)

lemma ALIGN_100: "ALIGN (100 + WSIZE) = 112"
  by (simp add: ALIGN_def WSIZE_def)

lemma ALIGN_4100: "ALIGN (4100 + WSIZE) = 4112"
  by (simp add: ALIGN_def WSIZE_def)

lemma ALIGN_10000: "ALIGN (10000 + WSIZE) = 10016"
  by (simp add: ALIGN_def WSIZE_def)

text \<open>
  C6. \<^verbatim>\<open>mm_malloc(0)\<close> returns \<^verbatim>\<open>NULL\<close> and leaves the heap as it was. For every
  heap and size, \<^verbatim>\<open>mm_malloc\<close> returns \<^verbatim>\<open>NULL\<close> exactly when the size is 0, or the
  fit search returned \<^verbatim>\<open>NULL\<close> and \<^verbatim>\<open>extend_heap\<close> returned \<^verbatim>\<open>NULL\<close> after it.
  In the other cases a block is handed out: where the fit search finds a block, that
  block is placed and returned; where it finds none and \<^verbatim>\<open>extend_heap\<close> returns a
  block, that block is placed and returned. Where the fit search finds nothing and the
  region provider answers the chunk-aligned request with \<^verbatim>\<open>(void * )-1\<close>,
  \<^verbatim>\<open>extend_heap\<close> returns \<^verbatim>\<open>NULL\<close> and so does \<^verbatim>\<open>mm_malloc\<close>, on the heap
  the provider left; and whatever the fit search does, a provider that fails never makes
  \<^verbatim>\<open>mm_malloc\<close> abort.
\<close>

theorem mm_malloc_null_iff:
  "mm_malloc cs h 0 = Some (Inr (h, NULL))
   \<and> (returned_ptr (mm_malloc cs h sz) = Some NULL \<longleftrightarrow>
        sz = 0
        \<or> (find_first_fit h (ALIGN (sz + WSIZE)) = Some NULL
           \<and> returned_ptr (extend_heap cs h (ALIGN (sz + WSIZE))) = Some NULL))
   \<and> (sz \<noteq> 0 \<longrightarrow> find_first_fit h (ALIGN (sz + WSIZE)) = Some p \<longrightarrow> p \<noteq> NULL
        \<longrightarrow> mm_malloc cs h sz = Some (Inr (place_and_split h p (ALIGN (sz + WSIZE)), p)))
   \<and> (sz \<noteq> 0 \<longrightarrow> find_first_fit h (ALIGN (sz + WSIZE)) = Some NULL
        \<longrightarrow> extend_heap cs h (ALIGN (sz + WSIZE)) = Some (Inr (h1, p1)) \<longrightarrow> p1 \<noteq> NULL
        \<longrightarrow> mm_malloc cs h sz = Some (Inr (place_and_split h1 p1 (ALIGN (sz + WSIZE)), p1)))
   \<and> (sz \<noteq> 0 \<longrightarrow> find_first_fit h (ALIGN (sz + WSIZE)) = Some NULL
        \<longrightarrow> snd (mem_sbrk h (ALIGN_CHUNKSIZE cs (ALIGN (sz + WSIZE)))) = - 1
        \<longrightarrow> mm_malloc cs h sz
            = Some (Inr (fst (mem_sbrk h (ALIGN_CHUNKSIZE cs (ALIGN (sz + WSIZE)))), NULL)))
   \<and> (snd (mem_sbrk h (ALIGN_CHUNKSIZE cs (ALIGN (sz + WSIZE)))) = - 1
        \<longrightarrow> extend_heap cs h (ALIGN (sz + WSIZE))
              = Some (Inr (fst (mem_sbrk h (ALIGN_CHUNKSIZE cs (ALIGN (sz + WSIZE)))), NULL))
            \<and> mm_malloc cs h sz \<noteq> Some (Inl f))"
proof (intro conjI impI)
  show "mm_malloc cs h 0 = Some (Inr (h, NULL))"
    by (simp add: mm_malloc_def)
next
  show "returned_ptr (mm_malloc cs h sz) = Some NULL \<longleftrightarrow>
        sz = 0
        \<or> (find_first_fit h (ALIGN (sz + WSIZE)) = Some NULL
           \<and> returned_ptr (extend_heap cs h (ALIGN (sz + WSIZE))) = Some NULL)"
    by (auto simp: mm_malloc_def Let_def returned_ptr_def
        split: option.splits sum.splits prod.splits if_splits)
next
  assume "sz \<noteq> 0" and "find_first_fit h (ALIGN (sz + WSIZE)) = Some p" and "p \<noteq> NULL"
  then show "mm_malloc cs h sz = Some (Inr (place_and_split h p (ALIGN (sz + WSIZE)), p))"
    by (simp add: mm_malloc_def Let_def)
next
  assume "sz \<noteq> 0" and "find_first_fit h (ALIGN (sz + WSIZE)) = Some NULL"
    and "extend_heap cs h (ALIGN (sz + WSIZE)) = Some (Inr (h1, p1))" and "p1 \<noteq> NULL"
  then show "mm_malloc cs h sz = Some (Inr (place_and_split h1 p1 (ALIGN (sz + WSIZE)), p1))"
    by (simp add: mm_malloc_def Let_def)
next
  assume "sz \<noteq> 0" and "find_first_fit h (ALIGN (sz + WSIZE)) = Some NULL"
    and "snd (mem_sbrk h (ALIGN_CHUNKSIZE cs (ALIGN (sz + WSIZE)))) = - 1"
  then show "mm_malloc cs h sz
      = Some (Inr (fst (mem_sbrk h (ALIGN_CHUNKSIZE cs (ALIGN (sz + WSIZE)))), NULL))"
    by (simp add: mm_malloc_def Let_def extend_heap_provider_fails)
next
  assume "snd (mem_sbrk h (ALIGN_CHUNKSIZE cs (ALIGN (sz + WSIZE)))) = - 1"
  then show "extend_heap cs h (ALIGN (sz + WSIZE))
      = Some (Inr (fst (mem_sbrk h (ALIGN_CHUNKSIZE cs (ALIGN (sz + WSIZE)))), NULL))"
    by (rule extend_heap_provider_fails)
next
  assume "snd (mem_sbrk h (ALIGN_CHUNKSIZE cs (ALIGN (sz + WSIZE)))) = - 1"
  then show "mm_malloc cs h sz \<noteq> Some (Inl f)"
    by (auto simp: mm_malloc_def Let_def extend_heap_provider_fails split: option.splits)
qed

theorem mm_malloc_null_iff_witness:
  "find_first_fit heap_after_init (ALIGN (100 + WSIZE)) = Some 0x10000008
   \<and> mm_malloc 4096 heap_after_init 100 = Some (Inr (heap_after_malloc, 0x10000008))
   \<and> returned_ptr (mm_malloc 4096 heap_after_init 100) \<noteq> Some NULL
   \<and> find_first_fit heap_free_tail (ALIGN (4100 + WSIZE)) = Some NULL
   \<and> extend_heap 4096 heap_free_tail (ALIGN (4100 + WSIZE))
       = Some (Inr (heap_after_growth, 0x10000008))
   \<and> mm_malloc 4096 heap_free_tail 4100
       = Some (Inr (place_and_split heap_after_growth 0x10000008 4112, 0x10000008))
   \<and> find_first_fit exhausted_heap (ALIGN (10000 + WSIZE)) = Some NULL
   \<and> mem_sbrk exhausted_heap (ALIGN_CHUNKSIZE 4096 (ALIGN (10000 + WSIZE)))
       = (exhausted_heap, - 1)
   \<and> mm_malloc 4096 exhausted_heap 10000 = Some (Inr (exhausted_heap, NULL))
   \<and> returned_ptr (extend_heap 4096 exhausted_heap (ALIGN (10000 + WSIZE))) = Some NULL
   \<and> mm_malloc 4096 exhausted_heap 10000 \<noteq> Some (Inl AssertFail)"
proof -
  note found = mm_malloc_null_iff
    [of 4096 heap_after_init 100 "0x10000008" heap_after_init NULL AssertFail]
  note grown = mm_malloc_null_iff
    [of 4096 heap_free_tail 4100 NULL heap_after_growth "0x10000008" AssertFail]
  note failed = mm_malloc_null_iff
    [of 4096 exhausted_heap 10000 NULL exhausted_heap NULL AssertFail]
  have a: "mm_malloc 4096 heap_after_init 100 = Some (Inr (heap_after_malloc, 0x10000008))"
    using found
    by (simp add: ALIGN_100 find_first_fit_after_init place_and_split_after_init NULL_def)
  have a': "returned_ptr (mm_malloc 4096 heap_after_init 100) \<noteq> Some NULL"
    using found
    by (simp add: ALIGN_100 find_first_fit_after_init NULL_def returned_ptr_def)
  have b: "mm_malloc 4096 heap_free_tail 4100
       = Some (Inr (place_and_split heap_after_growth 0x10000008 4112, 0x10000008))"
    using grown
    by (simp add: ALIGN_4100 find_first_fit_free_tail_4112 extend_heap_free_tail_4112 NULL_def)
  have c: "mm_malloc 4096 exhausted_heap 10000 = Some (Inr (exhausted_heap, NULL))"
    using failed by (simp add: ALIGN_10000 find_first_fit_exhausted mem_sbrk_exhausted)
  have c': "mm_malloc 4096 exhausted_heap 10000 \<noteq> Some (Inl AssertFail)"
    using failed by (simp add: ALIGN_10000 mem_sbrk_exhausted)
  have c'': "returned_ptr (extend_heap 4096 exhausted_heap (ALIGN (10000 + WSIZE))) = Some NULL"
    using failed c by (simp add: ALIGN_10000 returned_ptr_def)
  show ?thesis
    using a a' b c c' c''
    by (simp add: ALIGN_100 ALIGN_4100 ALIGN_10000 find_first_fit_after_init
        find_first_fit_free_tail_4112 extend_heap_free_tail_4112 find_first_fit_exhausted
        mem_sbrk_exhausted)
qed

subsection \<open>Requests beyond the representable range\<close>
















subsection \<open>The collecting helpers on a block that is large enough\<close>

text \<open>
  On a block that already has the target size, neither helper merges anything: the heap
  stays as it is. The block that \<^verbatim>\<open>extend_heap\<close> appends for a request has at least
  the requested size, as long as rounding up to the chunk size does not pass \<open>2^32\<close>.
\<close>

lemma ALIGN_CHUNKSIZE_ge:
  assumes cs: "cs \<noteq> 0" and room: "unat sz + unat cs \<le> 2 ^ 32"
  shows "sz \<le> ALIGN_CHUNKSIZE cs sz"
proof -
  define n where "n = unat sz"
  define c where "c = unat cs"
  have c0: "0 < c" using cs by (simp add: c_def unat_gt_0)
  have c1: "unat (cs - 1) = c - 1"
    using c0 by (simp add: c_def unat_minus_one cs)
  have lt: "unat sz + unat (cs - 1) < 2 ^ LENGTH(32)"
    using room c0 by (simp add: c1 c_def)
  have m: "unat (sz + (cs - 1)) = n + (c - 1)"
    using unat_add_lem[THEN iffD1, OF lt] by (simp add: c1 n_def)
  define Q where "Q = (sz + (cs - 1)) div cs"
  have q: "unat Q = (n + (c - 1)) div c"
    by (simp add: Q_def unat_div m c_def[symmetric])
  have le: "(n + (c - 1)) div c * c \<le> n + (c - 1)"
    using div_mult_mod_eq[of "n + (c - 1)" c] by linarith
  have "n + (c - 1) < 2 ^ LENGTH(32)"
    using lt by (simp add: c1 n_def)
  with le have "(n + (c - 1)) div c * c < 2 ^ LENGTH(32)"
    by (rule le_less_trans)
  then have "unat Q * unat cs < 2 ^ LENGTH(32)"
    by (simp only: q c_def[symmetric])
  then have prod: "unat (Q * cs) = (n + (c - 1)) div c * c"
    using unat_mult_lem[THEN iffD1, of Q cs] by (simp add: q c_def[symmetric])
  have "(n + (c - 1)) mod c < c" using c0 by simp
  then have "n \<le> (n + (c - 1)) div c * c"
    using div_mult_mod_eq[of "n + (c - 1)" c] by linarith
  then show ?thesis
    by (simp add: ALIGN_CHUNKSIZE_def Q_def[symmetric] word_le_nat_alt prod n_def[symmetric])
qed

lemma backward_collect_idle:
  assumes "target_sz \<le> GET_SIZE h hdrp"
  shows "backward_collect h hdrp target_sz = Some h"
  using assms unfolding backward_collect_def
  by (subst backward_collect_loop.simps) (simp add: not_less[symmetric])

lemma forward_collect_idle:
  assumes "target_sz \<le> GET_SIZE h hdrp"
    and "unat (GET_SIZE h (hdrp - WSIZE)) + unat (GET_SIZE h hdrp) < 2 ^ 32"
  shows "forward_collect h hdrp c target_sz =
     Some (h, if GET_PREV_ALLOC h hdrp \<noteq> 0 then hdrp else hdrp - GET_SIZE h (hdrp - WSIZE),
           if GET_PREV_ALLOC h hdrp \<noteq> 0 then c else GET_SIZE h (hdrp - WSIZE))"
proof -
  have "GET_SIZE h hdrp \<le> GET_SIZE h (hdrp - WSIZE) + GET_SIZE h hdrp"
    using assms(2) by (simp add: word_le_nat_alt unat_word_ariths)
  with assms(1) have "\<not> GET_SIZE h (hdrp - WSIZE) + GET_SIZE h hdrp < target_sz"
    by simp
  then show ?thesis
    unfolding forward_collect_def Let_def
    by (subst forward_collect_loop.simps) simp
qed

end
